theory Spec2Isabelle
  imports Complex_Main
begin

section \<open>Python values used by the tailer\<close>

text \<open>
  Exceptions are values. Each constructor is the Python exception class that the
  modelled statement raises; \<open>IOError\<close> is what \<open>open\<close>, \<open>seek\<close> and a gzip read
  raise, \<open>OSError\<close> what \<open>os.stat\<close> raises.
\<close>

datatype error =
    StopIteration
  | IOError
  | OSError
  | IndexError
  | ValueError
  | AttributeError
  | TypeError

text \<open>Strings are byte strings; the line terminator is the byte 10.\<close>

definition newline :: char where
  "newline = CHR 0x0A"

text \<open>\<open>str.strip()\<close>: the ASCII whitespace bytes are removed at both ends.\<close>

definition is_space :: "char \<Rightarrow> bool" where
  "is_space c = (c \<in> set [CHR '' '', CHR 0x09, CHR 0x0A, CHR 0x0B, CHR 0x0C, CHR 0x0D])"

definition strip :: "string \<Rightarrow> string" where
  "strip s = rev (dropWhile is_space (rev (dropWhile is_space s)))"

text \<open>\<open>str.endswith\<close>.\<close>

definition endswith :: "string \<Rightarrow> string \<Rightarrow> bool" where
  "endswith s t = (length t \<le> length s \<and> drop (length s - length t) s = t)"

text \<open>
  Iterating over a text file yields its lines, each with its terminator; a last
  line without terminator is yielded as it is.
\<close>

fun lines_from :: "string \<Rightarrow> string \<Rightarrow> string list" where
  "lines_from cur [] = (if cur = [] then [] else [cur])"
| "lines_from cur (c # cs) =
     (if c = newline then (cur @ [c]) # lines_from [] cs else lines_from (cur @ [c]) cs)"

definition file_lines :: "string \<Rightarrow> string list" where
  "file_lines s = lines_from [] s"

text \<open>\<open>readline()\<close> on the unread rest of a stream: up to and including the next
  terminator, the whole rest when there is none, the empty string at the end.\<close>

fun first_line :: "string \<Rightarrow> string" where
  "first_line [] = []"
| "first_line (c # cs) = (if c = newline then [c] else c # first_line cs)"

text \<open>Indexing a Python list: out of range is an \<open>IndexError\<close>.\<close>

definition item :: "'a list \<Rightarrow> nat \<Rightarrow> error + 'a" where
  "item xs i = (if i < length xs then Inr (xs ! i) else Inl IndexError)"

subsection \<open>Decimal numerals: \<open>str\<close> and \<open>int\<close>\<close>

definition digit_char :: "nat \<Rightarrow> char" where
  "digit_char d = ''0123456789'' ! d"

definition digit_val :: "char \<Rightarrow> nat option" where
  "digit_val c = map_of
     [(CHR ''0'', 0), (CHR ''1'', 1), (CHR ''2'', 2), (CHR ''3'', 3), (CHR ''4'', 4),
      (CHR ''5'', 5), (CHR ''6'', 6), (CHR ''7'', 7), (CHR ''8'', 8), (CHR ''9'', 9)] c"

function str_nat :: "nat \<Rightarrow> string" where
  "str_nat n = (if n < 10 then [digit_char n] else str_nat (n div 10) @ [digit_char (n mod 10)])"
  by pat_completeness auto
termination
  by (relation "measure id") auto

declare str_nat.simps [simp del]

definition str_int :: "int \<Rightarrow> string" where
  "str_int i = (if i < 0 then CHR ''-'' # str_nat (nat (- i)) else str_nat (nat i))"

text \<open>The value of a string of decimal digits, read left to right; \<open>None\<close> when a
  byte is not a digit.\<close>

fun digits_value :: "nat \<Rightarrow> string \<Rightarrow> nat option" where
  "digits_value acc [] = Some acc"
| "digits_value acc (c # cs) =
     (case digit_val c of None \<Rightarrow> None | Some d \<Rightarrow> digits_value (10 * acc + d) cs)"

definition parse_nat :: "string \<Rightarrow> nat option" where
  "parse_nat s = (if s = [] then None else digits_value 0 s)"

text \<open>
  \<open>int(s)\<close> on a string without surrounding whitespace: an optional sign and at
  least one decimal digit. \<open>None\<close> is the \<open>ValueError\<close>. (Digit grouping with
  underscores, which later Python versions accept, is not part of the model.)
\<close>

definition py_int :: "string \<Rightarrow> int option" where
  "py_int s =
     (case s of
        [] \<Rightarrow> None
      | c # cs \<Rightarrow>
          if c = CHR ''-'' then map_option (\<lambda>n. - int n) (parse_nat cs)
          else if c = CHR ''+'' then map_option int (parse_nat cs)
          else map_option int (parse_nat s))"

subsection \<open>\<open>datetime\<close>\<close>

text \<open>
  A naive \<open>datetime\<close> is a point of the proleptic Gregorian calendar with microsecond
  resolution. It is modelled by its count of microseconds since
  0001-01-01T00:00:00 (\<open>datetime.min\<close>); comparison, subtraction and adding a
  \<open>timedelta\<close> are then the integer operations. The calendar fields are computed
  the way CPython's \<open>datetime\<close> module does.
\<close>

type_synonym datetime = int

definition us_per_second :: int where
  "us_per_second = 1000000"

definition us_per_hour :: int where
  "us_per_hour = 3600 * us_per_second"

definition us_per_day :: int where
  "us_per_day = 24 * us_per_hour"

definition is_leap :: "int \<Rightarrow> bool" where
  "is_leap y = (y mod 4 = 0 \<and> (y mod 100 \<noteq> 0 \<or> y mod 400 = 0))"

definition days_in_month :: "int \<Rightarrow> int \<Rightarrow> int" where
  "days_in_month y m =
     (if m = 2 then (if is_leap y then 29 else 28)
      else if m = 4 \<or> m = 6 \<or> m = 9 \<or> m = 11 then 30 else 31)"

definition days_before_year :: "int \<Rightarrow> int" where
  "days_before_year y = (y - 1) * 365 + (y - 1) div 4 - (y - 1) div 100 + (y - 1) div 400"

definition days_before_month :: "int \<Rightarrow> int \<Rightarrow> int" where
  "days_before_month y m =
     [0, 31, 59, 90, 120, 151, 181, 212, 243, 273, 304, 334] ! nat (m - 1)
       + (if m > 2 \<and> is_leap y then 1 else 0)"

text \<open>\<open>_ymd2ord\<close>: the proleptic ordinal of a date, 0001-01-01 being day 1.\<close>

definition ymd2ord :: "int \<Rightarrow> int \<Rightarrow> int \<Rightarrow> int" where
  "ymd2ord y m d = days_before_year y + days_before_month y m + d"

text \<open>\<open>_ord2ymd\<close>: year, month and day of an ordinal. Its last part finds month and
  day of the \<open>n\<close>-th day of a year, counted from 0: an estimate of the month that is
  right or one too large, and its correction.\<close>

definition month_day :: "bool \<Rightarrow> int \<Rightarrow> int \<times> int" where
  "month_day leapyear n =
     (let month = (n + 50) div 32;
          preceding = [0, 31, 59, 90, 120, 151, 181, 212, 243, 273, 304, 334] ! nat (month - 1)
                        + (if month > 2 \<and> leapyear then 1 else 0)
      in if preceding > n
         then (let month' = month - 1;
                   preceding' = preceding -
                     ([31, 28, 31, 30, 31, 30, 31, 31, 30, 31, 30, 31] ! nat (month' - 1)
                        + (if month' = 2 \<and> leapyear then 1 else 0))
               in (month', n - preceding' + 1))
         else (month, n - preceding + 1))"

definition ord2ymd :: "int \<Rightarrow> int \<times> int \<times> int" where
  "ord2ymd ordinal =
     (let n0 = ordinal - 1;
          n400 = n0 div 146097; na = n0 mod 146097;
          n100 = na div 36524; nb = na mod 36524;
          n4 = nb div 1461; nc = nb mod 1461;
          n1 = nc div 365; n = nc mod 365;
          year = n400 * 400 + 1 + n100 * 100 + n4 * 4 + n1
      in if n1 = 4 \<or> n100 = 4 then (year - 1, 12, 31)
         else (year, month_day (n1 = 3 \<and> (n4 \<noteq> 24 \<or> n100 = 3)) n))"

text \<open>The fields of a \<open>datetime\<close>.\<close>

definition dt_date :: "datetime \<Rightarrow> int \<times> int \<times> int" where
  "dt_date t = ord2ymd (t div us_per_day + 1)"

definition dt_year :: "datetime \<Rightarrow> int" where
  "dt_year t = fst (dt_date t)"

definition dt_month :: "datetime \<Rightarrow> int" where
  "dt_month t = fst (snd (dt_date t))"

definition dt_day :: "datetime \<Rightarrow> int" where
  "dt_day t = snd (snd (dt_date t))"

definition dt_hour :: "datetime \<Rightarrow> int" where
  "dt_hour t = (t mod us_per_day) div us_per_hour"

definition dt_minute :: "datetime \<Rightarrow> int" where
  "dt_minute t = (t mod us_per_hour) div (60 * us_per_second)"

definition dt_second :: "datetime \<Rightarrow> int" where
  "dt_second t = (t mod (60 * us_per_second)) div us_per_second"

definition dt_microsecond :: "datetime \<Rightarrow> int" where
  "dt_microsecond t = t mod us_per_second"

text \<open>The constructor \<open>datetime(y, m, d, H, M, S, f)\<close>; \<open>None\<close> is its \<open>ValueError\<close>.\<close>

definition mk_datetime :: "int \<Rightarrow> int \<Rightarrow> int \<Rightarrow> int \<Rightarrow> int \<Rightarrow> int \<Rightarrow> int \<Rightarrow> datetime option" where
  "mk_datetime y m d H M S f =
     (if 1 \<le> y \<and> y \<le> 9999 \<and> 1 \<le> m \<and> m \<le> 12 \<and> 1 \<le> d \<and> d \<le> days_in_month y m
         \<and> 0 \<le> H \<and> H \<le> 23 \<and> 0 \<le> M \<and> M \<le> 59 \<and> 0 \<le> S \<and> S \<le> 59 \<and> 0 \<le> f \<and> f \<le> 999999
      then Some ((((ymd2ord y m d - 1) * 24 + H) * 60 + M) * 60 * us_per_second
                   + S * us_per_second + f)
      else None)"

text \<open>\<open>t.replace(minute=0, second=0, microsecond=0)\<close>.\<close>

definition floor_hour :: "datetime \<Rightarrow> datetime" where
  "floor_hour t = t - t mod us_per_hour"

text \<open>A number printed with at least \<open>k\<close> digits, padded with zeros on the left.\<close>

definition zpad :: "nat \<Rightarrow> int \<Rightarrow> string" where
  "zpad k n = replicate (k - length (str_nat (nat n))) (CHR ''0'') @ str_nat (nat n)"

text \<open>\<open>strftime\<close> with the two formats of the class: \<open>'%Y%m%d%H'\<close> for the hour of an
  archive and \<open>'%Y-%m-%dT%H:%M:%S.%f'\<close> for the timestamp of the cursor.\<close>

definition strftime_log_hour :: "datetime \<Rightarrow> string" where
  "strftime_log_hour t = zpad 4 (dt_year t) @ zpad 2 (dt_month t) @ zpad 2 (dt_day t) @ zpad 2 (dt_hour t)"

definition strftime_dt :: "datetime \<Rightarrow> string" where
  "strftime_dt t =
     zpad 4 (dt_year t) @ ''-'' @ zpad 2 (dt_month t) @ ''-'' @ zpad 2 (dt_day t) @ ''T''
       @ zpad 2 (dt_hour t) @ '':'' @ zpad 2 (dt_minute t) @ '':'' @ zpad 2 (dt_second t)
       @ ''.'' @ zpad 6 (dt_microsecond t)"

text \<open>
  \<open>datetime.strptime(s, '%Y-%m-%dT%H:%M:%S.%f')\<close>; \<open>None\<close> is its \<open>ValueError\<close>.
  Every field is delimited by a literal of the format, so the text between two
  literals has to be the whole field: four digits for \<open>%Y\<close>, one or two digits for
  \<open>%m\<close>, \<open>%d\<close>, \<open>%H\<close>, \<open>%M\<close> and \<open>%S\<close> (a day may also be a space and a digit), one
  to six digits for \<open>%f\<close>, which are the leading digits of the microseconds. The
  literal \<open>T\<close> matches in either case. The ranges of the fields are those of the
  constructor.
\<close>

definition cut :: "(char \<Rightarrow> bool) \<Rightarrow> string \<Rightarrow> (string \<times> string) option" where
  "cut sep s =
     (case dropWhile (\<lambda>c. \<not> sep c) s of
        [] \<Rightarrow> None
      | _ # rest \<Rightarrow> Some (takeWhile (\<lambda>c. \<not> sep c) s, rest))"

definition year_field :: "string \<Rightarrow> int option" where
  "year_field s = (if length s = 4 then map_option int (parse_nat s) else None)"

definition num_field :: "nat \<Rightarrow> string \<Rightarrow> int option" where
  "num_field k s = (if length s \<le> k then map_option int (parse_nat s) else None)"

definition day_field :: "string \<Rightarrow> int option" where
  "day_field s =
     (case s of
        [c1, c2] \<Rightarrow> if c1 = CHR '' '' then map_option int (digit_val c2) else num_field 2 s
      | _ \<Rightarrow> num_field 2 s)"

definition frac_field :: "string \<Rightarrow> int option" where
  "frac_field s =
     (if length s \<le> 6 then map_option int (parse_nat (s @ replicate (6 - length s) (CHR ''0'')))
      else None)"

definition strptime_dt :: "string \<Rightarrow> datetime option" where
  "strptime_dt s =
     Option.bind (cut (\<lambda>c. c = CHR ''-'') s) (\<lambda>(sY, r1).
     Option.bind (cut (\<lambda>c. c = CHR ''-'') r1) (\<lambda>(sm, r2).
     Option.bind (cut (\<lambda>c. c = CHR ''T'' \<or> c = CHR ''t'') r2) (\<lambda>(sd, r3).
     Option.bind (cut (\<lambda>c. c = CHR '':'') r3) (\<lambda>(sH, r4).
     Option.bind (cut (\<lambda>c. c = CHR '':'') r4) (\<lambda>(sM, r5).
     Option.bind (cut (\<lambda>c. c = CHR ''.'') r5) (\<lambda>(sS, sf).
     Option.bind (year_field sY) (\<lambda>y.
     Option.bind (num_field 2 sm) (\<lambda>m.
     Option.bind (day_field sd) (\<lambda>d.
     Option.bind (num_field 2 sH) (\<lambda>H.
     Option.bind (num_field 2 sM) (\<lambda>M.
     Option.bind (num_field 2 sS) (\<lambda>S.
     Option.bind (frac_field sf) (\<lambda>f.
       mk_datetime y m d H M S f)))))))))))))"

section \<open>The world outside the object\<close>

text \<open>
  The file system maps a path to an inode and an inode to its content. An open
  handle refers to its inode, not to the path, so a file that was renamed away or
  unlinked stays readable through the handle. Decompression is not modelled: an
  inode carries, next to its bytes, the stream that \<open>gzip\<close> yields from them
  (\<open>None\<close> when the bytes are no gzip archive).

  The world also holds the wall clock (\<open>datetime.now()\<close>), the host's name
  (\<open>socket.gethostname()\<close>), the inode the system gives to the next file that is
  created, and the records handed to the \<open>logging\<close> module so far.
\<close>

record inode =
  bytes :: string
  inflated :: "string option"

datatype loglevel = DEBUG | INFO | WARNING

record world =
  dirents :: "string \<Rightarrow> nat option"
  inodes :: "nat \<Rightarrow> inode"
  next_ino :: nat
  clock :: datetime
  gethostname :: string
  logged :: "(loglevel \<times> string) list"

text \<open>\<open>os.path.exists\<close>, \<open>os.path.getsize\<close> (asked only after \<open>exists\<close>) and \<open>os.stat\<close>,
  which gives \<open>(st_ino, st_size)\<close> or raises \<open>OSError\<close>.\<close>

definition exists :: "world \<Rightarrow> string \<Rightarrow> bool" where
  "exists w p = (dirents w p \<noteq> None)"

definition stat :: "world \<Rightarrow> string \<Rightarrow> (nat \<times> nat) option" where
  "stat w p = (case dirents w p of None \<Rightarrow> None | Some i \<Rightarrow> Some (i, length (bytes (inodes w i))))"

definition getsize :: "world \<Rightarrow> string \<Rightarrow> nat" where
  "getsize w p = (case stat w p of None \<Rightarrow> 0 | Some (i, n) \<Rightarrow> n)"

text \<open>The bytes of the file at a path, read with \<open>open(p, "r")\<close>.\<close>

definition read_file :: "world \<Rightarrow> string \<Rightarrow> string option" where
  "read_file w p = (case dirents w p of None \<Rightarrow> None | Some i \<Rightarrow> Some (bytes (inodes w i)))"

text \<open>\<open>open(p, "w")\<close>, one \<open>write\<close> and \<open>close\<close>: an existing file keeps its inode and
  gets the new content, a missing one is created.\<close>

definition write_file :: "world \<Rightarrow> string \<Rightarrow> string \<Rightarrow> world" where
  "write_file w p data =
     (case dirents w p of
        Some i \<Rightarrow> w\<lparr>inodes := (inodes w)(i := \<lparr>bytes = data, inflated = None\<rparr>)\<rparr>
      | None \<Rightarrow>
          w\<lparr>dirents := (dirents w)(p \<mapsto> next_ino w),
            inodes := (inodes w)(next_ino w := \<lparr>bytes = data, inflated = None\<rparr>),
            next_ino := Suc (next_ino w)\<rparr>)"

text \<open>A call of \<open>logging.debug\<close> or \<open>logging.info\<close>.\<close>

definition emit :: "loglevel \<Rightarrow> string \<Rightarrow> world \<Rightarrow> world" where
  "emit lvl msg w = w\<lparr>logged := logged w @ [(lvl, msg)]\<rparr>"

subsection \<open>File objects\<close>

text \<open>
  A file object: the name it was opened with, the inode it refers to, whether it
  was opened with \<open>gzip.open\<close>, its read position (\<open>tell()\<close>) and whether it has been
  closed.
\<close>

record handle =
  h_name :: string
  h_ino :: nat
  h_gz :: bool
  h_pos :: nat
  h_closed :: bool

text \<open>\<open>open(name, "r")\<close> and \<open>gzip.open(name, 'r')\<close>; a missing path is an \<open>IOError\<close>.\<close>

definition open_read :: "world \<Rightarrow> string \<Rightarrow> bool \<Rightarrow> error + handle" where
  "open_read w name gz =
     (case dirents w name of
        None \<Rightarrow> Inl IOError
      | Some i \<Rightarrow> Inr \<lparr>h_name = name, h_ino = i, h_gz = gz, h_pos = 0, h_closed = False\<rparr>)"

text \<open>The stream a handle reads: the bytes of its inode, or what gzip yields from them.\<close>

definition stream :: "world \<Rightarrow> handle \<Rightarrow> string option" where
  "stream w h = (if h_gz h then inflated (inodes w (h_ino h)) else Some (bytes (inodes w (h_ino h))))"

text \<open>
  \<open>fh.seek(off)\<close>. A negative position is refused. A plain file takes any other
  position, also one behind its end. A gzip file reads forward to the position
  and stops at the end of its stream; position 0 needs no read.
\<close>

definition seek :: "world \<Rightarrow> handle \<Rightarrow> int \<Rightarrow> error + handle" where
  "seek w h off =
     (if off < 0 then Inl IOError
      else if \<not> h_gz h then Inr (h\<lparr>h_pos := nat off\<rparr>)
      else if off = 0 then Inr (h\<lparr>h_pos := 0\<rparr>)
      else (case stream w h of
              None \<Rightarrow> Inl IOError
            | Some data \<Rightarrow> Inr (h\<lparr>h_pos := min (nat off) (length data)\<rparr>)))"

text \<open>\<open>fh.readline()\<close>: the line and the handle behind it.\<close>

definition readline :: "world \<Rightarrow> handle \<Rightarrow> error + (string \<times> handle)" where
  "readline w h =
     (if h_closed h then Inl ValueError
      else (case stream w h of
              None \<Rightarrow> Inl IOError
            | Some data \<Rightarrow>
                (let line = first_line (drop (h_pos h) data)
                 in Inr (line, h\<lparr>h_pos := h_pos h + length line\<rparr>))))"

section \<open>The class \<open>Pygtail\<close>\<close>

text \<open>
  The attributes of the object, under their names in the source without the
  leading underscore. The waiting times are floating-point numbers in the source
  and real numbers here: the rounding of their sum is not modelled.
\<close>

record pygtail =
  filename :: string
  paranoid :: bool
  copytruncate :: bool
  wait_step :: real
  wait_timeout :: real
  time_waited :: real
  offset_file :: string
  offset_file_inode :: "int option"
  offset :: "int option"
  hostname :: string
  fh :: "handle option"
  rotated_logfiles :: "string list"
  catching_up :: bool
  last_log :: "datetime option"

text \<open>\<open>_is_closed\<close>: no file object yet, or a closed one.\<close>

definition is_closed :: "pygtail \<Rightarrow> bool" where
  "is_closed s = (case fh s of None \<Rightarrow> True | Some h \<Rightarrow> h_closed h)"

text \<open>\<open>int(offset_data[i])\<close> and \<open>datetime.strptime(offset_data[i], self._dt_format)\<close>.\<close>

definition int_item :: "string list \<Rightarrow> nat \<Rightarrow> error + int" where
  "int_item xs i =
     (case item xs i of
        Inl e \<Rightarrow> Inl e
      | Inr a \<Rightarrow> (case py_int a of None \<Rightarrow> Inl ValueError | Some v \<Rightarrow> Inr v))"

definition datetime_item :: "string list \<Rightarrow> nat \<Rightarrow> error + datetime" where
  "datetime_item xs i =
     (case item xs i of
        Inl e \<Rightarrow> Inl e
      | Inr a \<Rightarrow> (case strptime_dt a of None \<Rightarrow> Inl ValueError | Some t \<Rightarrow> Inr t))"

text \<open>
  \<open>_parse_offset_file\<close>. The three attributes are assigned one after the other, so
  an exception leaves the earlier ones assigned.
\<close>

definition parse_offset_file :: "pygtail \<Rightarrow> world \<Rightarrow> (error + unit) \<times> pygtail" where
  "parse_offset_file s w =
     (if exists w (offset_file s) \<and> getsize w (offset_file s) \<noteq> 0 then
        (let offset_data =
               map strip (file_lines (case read_file w (offset_file s) of None \<Rightarrow> [] | Some d \<Rightarrow> d))
         in case int_item offset_data 0 of
              Inl e \<Rightarrow> (Inl e, s)
            | Inr i \<Rightarrow>
                (let s1 = s\<lparr>offset_file_inode := Some i\<rparr>
                 in case int_item offset_data 1 of
                      Inl e \<Rightarrow> (Inl e, s1)
                    | Inr off \<Rightarrow>
                        (let s2 = s1\<lparr>offset := Some off\<rparr>
                         in case datetime_item offset_data 2 of
                              Inl e \<Rightarrow> (Inl e, s2)
                            | Inr t \<Rightarrow> (Inr (), s2\<lparr>last_log := Some t\<rparr>))))
      else (Inr (), s\<lparr>offset := Some 0\<rparr>))"

text \<open>\<open>_get_offset\<close>. After a successful parse the offset is set; were it not,
  the caller's \<open>seek(None)\<close> would be a \<open>TypeError\<close>.\<close>

definition get_offset :: "pygtail \<Rightarrow> world \<Rightarrow> (error + int) \<times> pygtail" where
  "get_offset s w =
     (case offset s of
        Some off \<Rightarrow> (Inr off, s)
      | None \<Rightarrow>
          (case parse_offset_file s w of (r, s1) \<Rightarrow>
             (case r of
                Inl e \<Rightarrow> (Inl e, s1)
              | Inr _ \<Rightarrow> (case offset s1 of None \<Rightarrow> (Inl TypeError, s1) | Some off \<Rightarrow> (Inr off, s1)))))"

text \<open>
  \<open>_filehandle\<close>. When no open file object is there, the head of the rotated
  files is popped, or the live file is taken; the file is opened, with gzip when
  its name ends in \<open>.gz\<close>, and positioned at the current offset.
\<close>

definition open_next :: "pygtail \<Rightarrow> world \<Rightarrow> (error + handle) \<times> pygtail" where
  "open_next s w =
     (let name = (case rotated_logfiles s of [] \<Rightarrow> filename s | f # fs \<Rightarrow> f);
          s1 = s\<lparr>rotated_logfiles := (case rotated_logfiles s of [] \<Rightarrow> [] | f # fs \<Rightarrow> fs)\<rparr>
      in case open_read w name (endswith name ''.gz'') of
           Inl e \<Rightarrow> (Inl e, s1)
         | Inr h \<Rightarrow>
             (case get_offset (s1\<lparr>fh := Some h\<rparr>) w of (r, s2) \<Rightarrow>
                (case r of
                   Inl e \<Rightarrow> (Inl e, s2)
                 | Inr off \<Rightarrow>
                     (case seek w h off of
                        Inl e \<Rightarrow> (Inl e, s2)
                      | Inr h' \<Rightarrow> (Inr h', s2\<lparr>fh := Some h'\<rparr>)))))"

definition filehandle :: "pygtail \<Rightarrow> world \<Rightarrow> (error + handle) \<times> pygtail" where
  "filehandle s w =
     (case fh s of
        None \<Rightarrow> open_next s w
      | Some h \<Rightarrow> if h_closed h then open_next s w else (Inr h, s))"

text \<open>The expression \<open>self._filehandle().readline()\<close>: the file object is the one the
  attribute refers to, so the attribute sees the new position.\<close>

definition filehandle_readline :: "pygtail \<Rightarrow> world \<Rightarrow> (error + string) \<times> pygtail" where
  "filehandle_readline s w =
     (case filehandle s w of (r, s1) \<Rightarrow>
        (case r of
           Inl e \<Rightarrow> (Inl e, s1)
         | Inr h \<Rightarrow>
             (case readline w h of
                Inl e \<Rightarrow> (Inl e, s1)
              | Inr (line, h') \<Rightarrow> (Inr line, s1\<lparr>fh := Some h'\<rparr>))))"

text \<open>The text written to the offset file: \<open>"%s\n%s\n%s\n" % (inode, offset, now)\<close>.\<close>

definition offset_text :: "nat \<Rightarrow> nat \<Rightarrow> datetime \<Rightarrow> string" where
  "offset_text ino off t =
     str_int (int ino) @ [newline] @ str_int (int off) @ [newline] @ strftime_dt t @ [newline]"

text \<open>\<open>_update_offset_file\<close>.\<close>

definition update_offset_file :: "pygtail \<Rightarrow> world \<Rightarrow> (error + unit) \<times> pygtail \<times> world" where
  "update_offset_file s w =
     (if is_closed s then (Inr (), s, w)
      else
        (case filehandle s w of (r, s1) \<Rightarrow>
           (case r of
              Inl e \<Rightarrow> (Inl e, s1, w)
            | Inr h \<Rightarrow>
                (case stat w (filename s1) of
                   None \<Rightarrow> (Inl OSError, s1, w)
                 | Some (ino, sz) \<Rightarrow>
                     (Inr (), s1,
                      write_file w (offset_file s1) (offset_text ino (h_pos h) (clock w)))))))"

text \<open>
  \<open>_determine_rotated_logfiles\<close>. Both ends are on the hour, so their difference is
  a whole number of hours and \<open>elapsed_hours\<close> is zero exactly when they are equal
  (under either division of Python 2 and 3). Without a last-read time the
  attribute access on \<open>None\<close> is an \<open>AttributeError\<close>.
\<close>

definition candidate :: "pygtail \<Rightarrow> datetime \<Rightarrow> string" where
  "candidate s start = filename s @ ''_'' @ hostname s @ ''_'' @ strftime_log_hour start @ ''.gz''"

function rotated_loop :: "pygtail \<Rightarrow> world \<Rightarrow> datetime \<Rightarrow> datetime \<Rightarrow> string list \<Rightarrow> string list" where
  "rotated_loop s w start end' files_list =
     (if start < end'
      then rotated_loop s w (start + us_per_hour) end'
             (if exists w (candidate s start) then files_list @ [candidate s start] else files_list)
      else files_list)"
  by pat_completeness auto
termination
  by (relation "measure (\<lambda>(s, w, start, end', files_list). nat (end' - start))")
     (auto simp: us_per_hour_def us_per_second_def)

declare rotated_loop.simps [simp del]

definition determine_rotated_logfiles :: "pygtail \<Rightarrow> world \<Rightarrow> error + string list" where
  "determine_rotated_logfiles s w =
     (case last_log s of
        None \<Rightarrow> Inl AttributeError
      | Some t \<Rightarrow>
          (let end' = floor_hour (clock w);
               start = floor_hour t;
               elapsed_hours = ((end' - start) div us_per_second) div 60 div 60
           in if elapsed_hours = 0 then Inr []
              else Inr (rotated_loop s w start end' [])))"

text \<open>\<open>_reload\<close>: closing a closed file is allowed; there is always a file object
  when the method is called, else the attribute access fails.\<close>

definition reload :: "pygtail \<Rightarrow> (error + unit) \<times> pygtail" where
  "reload s =
     (case fh s of
        None \<Rightarrow> (Inl AttributeError, s)
      | Some h \<Rightarrow> (Inr (), s\<lparr>fh := Some (h\<lparr>h_closed := True\<rparr>), offset := Some 0\<rparr>))"

text \<open>\<open>_check_rotate_truncate\<close>.\<close>

definition check_rotate_truncate :: "pygtail \<Rightarrow> world \<Rightarrow> (error + unit) \<times> pygtail \<times> world" where
  "check_rotate_truncate s w =
     (case filehandle s w of (r, s1) \<Rightarrow>
        (case r of
           Inl e \<Rightarrow> (Inl e, s1, w)
         | Inr h \<Rightarrow>
             (let start_pos = h_pos h; fh_ino = h_ino h
              in case stat w (filename s1) of
                   None \<Rightarrow>
                     (case reload s1 of (r', s2) \<Rightarrow> (r', s2, emit INFO ''File moved, reloading...'' w))
                 | Some (current_ino, current_size) \<Rightarrow>
                     (case (if fh_ino \<noteq> current_ino
                            then (case reload s1 of (r', s2) \<Rightarrow>
                                    (r', s2, emit INFO ''File rotated, reloading...'' w))
                            else (Inr (), s1, w)) of (r1, s2, w2) \<Rightarrow>
                        (case r1 of
                           Inl e \<Rightarrow> (Inl e, s2, w2)
                         | Inr _ \<Rightarrow>
                             if copytruncate s2 \<and> current_size < start_pos
                             then (case reload s2 of (r', s3) \<Rightarrow>
                                     (r', s3, emit INFO ''File truncated, reloading...'' w2))
                             else (Inr (), s2, w2))))))"

text \<open>
  \<open>_wait_for_update\<close>. While the object sleeps, the rest of the system acts: the
  script gives, for each \<open>time.sleep\<close>, what the sleep does to the world. The loop
  has no bound of its own when \<open>wait_timeout\<close> is negative, so a script that runs out
  while the loop would sleep once more gives \<open>None\<close>. The remaining script is
  returned: it tells how often the loop slept. \<open>time.sleep\<close> refuses a negative
  length with a \<open>ValueError\<close>.
\<close>

type_synonym script = "(world \<Rightarrow> world) list"

type_synonym 'a outcome = "((error + 'a) \<times> pygtail \<times> world \<times> script) option"

fun wait_for_update :: "pygtail \<Rightarrow> world \<Rightarrow> script \<Rightarrow> string outcome" where
  "wait_for_update s w [] =
     (if wait_timeout s < 0 \<or> time_waited s < wait_timeout s
      then (if wait_step s < 0 then Some (Inl ValueError, s, w, []) else None)
      else Some (Inl StopIteration, s, w, []))"
| "wait_for_update s w (sleep # rest) =
     (if wait_timeout s < 0 \<or> time_waited s < wait_timeout s
      then
        (if wait_step s < 0 then Some (Inl ValueError, s, w, sleep # rest)
         else
           (let w1 = sleep w;
                s1 = s\<lparr>time_waited := time_waited s + wait_step s\<rparr>
            in case filehandle_readline s1 w1 of (r, s2) \<Rightarrow>
                 (case r of
                    Inl e \<Rightarrow> Some (Inl e, s2, w1, rest)
                  | Inr line \<Rightarrow>
                      if line \<noteq> [] then Some (Inr line, s2\<lparr>time_waited := 0\<rparr>, w1, rest)
                      else
                        (case check_rotate_truncate s2 w1 of (r', s3, w2) \<Rightarrow>
                           (case r' of
                              Inl e \<Rightarrow> Some (Inl e, s3, w2, rest)
                            | Inr _ \<Rightarrow> wait_for_update s3 w2 rest)))))
      else Some (Inl StopIteration, s, w, sleep # rest))"

text \<open>\<open>_get_next_line\<close>.\<close>

definition get_next_line :: "pygtail \<Rightarrow> world \<Rightarrow> script \<Rightarrow> string outcome" where
  "get_next_line s w sc =
     (case filehandle_readline s w of (r, s1) \<Rightarrow>
        (case r of
           Inl e \<Rightarrow> Some (Inl e, s1, w, sc)
         | Inr line \<Rightarrow>
             if line = [] then
               (if catching_up s1 then Some (Inl StopIteration, s1, w, sc)
                else
                  (case check_rotate_truncate s1 w of (r', s2, w2) \<Rightarrow>
                     (case r' of
                        Inl e \<Rightarrow> Some (Inl e, s2, w2, sc)
                      | Inr _ \<Rightarrow> wait_for_update s2 w2 sc)))
             else Some (Inr line, s1, w, sc)))"

text \<open>The end of \<open>next\<close>: in paranoid mode the offset file is written before the line
  is returned.\<close>

definition return_line :: "string \<Rightarrow> pygtail \<Rightarrow> world \<Rightarrow> script \<Rightarrow> string outcome" where
  "return_line line s w sc =
     (if paranoid s
      then (case update_offset_file s w of (r, s1, w1) \<Rightarrow>
              (case r of
                 Inl e \<Rightarrow> Some (Inl e, s1, w1, sc)
               | Inr _ \<Rightarrow> Some (Inr line, s1, w1, sc)))
      else Some (Inr line, s, w, sc))"

text \<open>\<open>self._update_offset_file(); raise\<close>: the offset file is written and the
  \<open>StopIteration\<close> goes on to the caller.\<close>

definition update_and_stop :: "pygtail \<Rightarrow> world \<Rightarrow> script \<Rightarrow> string outcome" where
  "update_and_stop s w sc =
     (case update_offset_file s w of (r, s1, w1) \<Rightarrow>
        (case r of
           Inl e \<Rightarrow> Some (Inl e, s1, w1, sc)
         | Inr _ \<Rightarrow> Some (Inl StopIteration, s1, w1, sc)))"

text \<open>
  The handler of \<open>next\<close> for a \<open>StopIteration\<close> while catching up. The arguments of
  \<open>logging.debug\<close> are evaluated first: \<open>getattr(self._fh, 'filename')\<close> is the name of
  a gzip file object and an \<open>AttributeError\<close> on any other.
\<close>

definition next_rotated :: "pygtail \<Rightarrow> world \<Rightarrow> script \<Rightarrow> string outcome" where
  "next_rotated s w sc =
     (case fh s of
        None \<Rightarrow> Some (Inl AttributeError, s, w, sc)
      | Some h \<Rightarrow>
          if \<not> h_gz h then Some (Inl AttributeError, s, w, sc)
          else
            (let moving_to = (case rotated_logfiles s of
                                [] \<Rightarrow> filename s
                              | f # fs \<Rightarrow> if f \<noteq> [] then f else filename s);
                 w1 = emit DEBUG (''Finished processing '' @ h_name h @ '', moving to '' @ moving_to) w
             in case reload s of (r, s1) \<Rightarrow>
                  (case r of
                     Inl e \<Rightarrow> Some (Inl e, s1, w1, sc)
                   | Inr _ \<Rightarrow>
                       (let s2 = s1\<lparr>catching_up := (rotated_logfiles s1 \<noteq> [])\<rparr>
                        in case get_next_line s2 w1 sc of
                             None \<Rightarrow> None
                           | Some (r', s3, w3, sc3) \<Rightarrow>
                               (case r' of
                                  Inr line \<Rightarrow> return_line line s3 w3 sc3
                                | Inl e \<Rightarrow>
                                    if e = StopIteration then update_and_stop s3 w3 sc3
                                    else Some (Inl e, s3, w3, sc3))))))"

text \<open>\<open>next\<close>: one pull of the iterator.\<close>

definition next_line :: "pygtail \<Rightarrow> world \<Rightarrow> script \<Rightarrow> string outcome" where
  "next_line s w sc =
     (case get_next_line s w sc of
        None \<Rightarrow> None
      | Some (r, s1, w1, sc1) \<Rightarrow>
          (case r of
             Inr line \<Rightarrow> return_line line s1 w1 sc1
           | Inl e \<Rightarrow>
               if e = StopIteration then
                 (if catching_up s1 then next_rotated s1 w1 sc1
                  else update_and_stop s1
                         (emit DEBUG ''StopIteration at the main file, exiting'' w1) sc1)
               else Some (Inl e, s1, w1, sc1)))"

text \<open>
  \<open>__init__\<close>. First the attributes are assigned; an argument that is \<open>None\<close> or
  empty gets its default: the offset file is \<open><filename>.offset\<close>, the host name is
  the system's up to its first dot. Then the offset file is parsed and, when it
  gave a time, the rotated files are determined.
\<close>

definition new_object ::
  "string \<Rightarrow> string option \<Rightarrow> bool \<Rightarrow> bool \<Rightarrow> real \<Rightarrow> real \<Rightarrow> string option \<Rightarrow> world \<Rightarrow> pygtail"
where
  "new_object filename' offset_file' paranoid' copytruncate' wait_step' wait_timeout' host_name w =
     \<lparr>filename = filename',
      paranoid = paranoid',
      copytruncate = copytruncate',
      wait_step = wait_step',
      wait_timeout = wait_timeout',
      time_waited = 0,
      offset_file = (case offset_file' of
                       None \<Rightarrow> filename' @ ''.offset''
                     | Some p \<Rightarrow> if p \<noteq> [] then p else filename' @ ''.offset''),
      offset_file_inode = None,
      offset = None,
      hostname = (case host_name of
                    None \<Rightarrow> takeWhile (\<lambda>c. c \<noteq> CHR ''.'') (gethostname w)
                  | Some h \<Rightarrow> if h \<noteq> [] then h
                              else takeWhile (\<lambda>c. c \<noteq> CHR ''.'') (gethostname w)),
      fh = None,
      rotated_logfiles = [],
      catching_up = False,
      last_log = None\<rparr>"

definition init ::
  "string \<Rightarrow> string option \<Rightarrow> bool \<Rightarrow> bool \<Rightarrow> real \<Rightarrow> real \<Rightarrow> string option \<Rightarrow> world \<Rightarrow> error + pygtail"
where
  "init filename' offset_file' paranoid' copytruncate' wait_step' wait_timeout' host_name w =
     (case parse_offset_file
             (new_object filename' offset_file' paranoid' copytruncate' wait_step' wait_timeout'
                host_name w) w of (r, s1) \<Rightarrow>
        (case r of
           Inl e \<Rightarrow> Inl e
         | Inr _ \<Rightarrow>
             if last_log s1 \<noteq> None then
               (case determine_rotated_logfiles s1 w of
                  Inl e \<Rightarrow> Inl e
                | Inr files \<Rightarrow> Inr (s1\<lparr>rotated_logfiles := files, catching_up := (files \<noteq> [])\<rparr>))
             else Inr s1))"

section \<open>Notions used in the statements\<close>

text \<open>The attributes that only \<open>__init__\<close>, the waiting loop (\<open>time_waited\<close>) and \<open>next\<close>
  (\<open>catching_up\<close>) assign: every other method leaves them as they are.\<close>

definition same_settings :: "pygtail \<Rightarrow> pygtail \<Rightarrow> bool" where
  "same_settings s s' =
     (filename s' = filename s \<and> paranoid s' = paranoid s \<and> copytruncate s' = copytruncate s
      \<and> wait_step s' = wait_step s \<and> wait_timeout s' = wait_timeout s
      \<and> time_waited s' = time_waited s \<and> offset_file s' = offset_file s
      \<and> hostname s' = hostname s \<and> catching_up s' = catching_up s)"

text \<open>The file object that \<open>_filehandle\<close> makes of the live file when the offset is 0.\<close>

definition live_handle :: "pygtail \<Rightarrow> nat \<Rightarrow> handle" where
  "live_handle s i =
     \<lparr>h_name = filename s, h_ino = i, h_gz = endswith (filename s) ''.gz'', h_pos = 0,
      h_closed = False\<rparr>"

text \<open>The object after \<open>_reload\<close>, when \<open>h\<close> is its file object.\<close>

definition reloaded :: "pygtail \<Rightarrow> handle \<Rightarrow> pygtail" where
  "reloaded s h = s\<lparr>fh := Some (h\<lparr>h_closed := True\<rparr>), offset := Some 0\<rparr>"

text \<open>A closed file object is only left behind by \<open>_reload\<close>, which sets the offset
  to 0: whenever the file object is closed, the offset is 0.\<close>

definition reopens_at_zero :: "pygtail \<Rightarrow> bool" where
  "reopens_at_zero s =
     (case fh s of None \<Rightarrow> True | Some h \<Rightarrow> if h_closed h then offset s = Some 0 else True)"

text \<open>A sleep during which nobody touches the files.\<close>

definition keeps_files :: "(world \<Rightarrow> world) \<Rightarrow> bool" where
  "keeps_files sleep = (\<forall>v. dirents (sleep v) = dirents v \<and> inodes (sleep v) = inodes v)"

section \<open>Sample worlds and sessions\<close>

text \<open>A host with the live file \<open>app.log\<close> (inode 1, two lines) and no offset file, and
  a fresh session on it with the default waiting times.\<close>

definition no_file :: inode where
  "no_file = \<lparr>bytes = [], inflated = None\<rparr>"

definition plain :: "string \<Rightarrow> inode" where
  "plain data = \<lparr>bytes = data, inflated = None\<rparr>"

definition sample_world :: world where
  "sample_world =
     \<lparr>dirents = map_of [(''app.log'', 1)],
      inodes = (\<lambda>i. no_file)(1 := plain ''a\<newline>b\<newline>''),
      next_ino = 10,
      clock = 63840911445123456,
      gethostname = ''web1.example.org'',
      logged = []\<rparr>"

definition fresh_session :: pygtail where
  "fresh_session =
     \<lparr>filename = ''app.log'', paranoid = False, copytruncate = True,
      wait_step = 1 / 2, wait_timeout = 20, time_waited = 0,
      offset_file = ''app.log.offset'', offset_file_inode = None, offset = Some 0,
      hostname = ''web1'', fh = None, rotated_logfiles = [], catching_up = False,
      last_log = None\<rparr>"

text \<open>The same session after it has read both lines: its file object is at the end
  of the file. One such session has used up its waiting time. A sleep during which
  a third line is appended to the live file.\<close>

definition at_end :: handle where
  "at_end = \<lparr>h_name = ''app.log'', h_ino = 1, h_gz = False, h_pos = 4, h_closed = False\<rparr>"

definition tailing :: pygtail where
  "tailing = fresh_session\<lparr>fh := Some at_end\<rparr>"

definition waited_out :: pygtail where
  "waited_out = tailing\<lparr>time_waited := 20\<rparr>"

definition append_c :: "world \<Rightarrow> world" where
  "append_c w = w\<lparr>inodes := (inodes w)(1 := plain ''a\<newline>b\<newline>c\<newline>'')\<rparr>"

text \<open>The live file after a copy-truncate rotation left one short line in it, and
  after a rename-and-recreate rotation (the old file is now \<open>app.log.1\<close>); a sleep of
  half a second during which nothing else happens.\<close>

definition shrunk_world :: world where
  "shrunk_world = sample_world\<lparr>inodes := (inodes sample_world)(1 := plain ''x\<newline>'')\<rparr>"

definition rotated_world :: world where
  "rotated_world =
     sample_world\<lparr>dirents := map_of [(''app.log'', 2), (''app.log.1'', 1)],
                  inodes := (inodes sample_world)(2 := plain ''new1\<newline>new2\<newline>'')\<rparr>"

definition nap :: "world \<Rightarrow> world" where
  "nap w = w\<lparr>clock := clock w + 500000\<rparr>"

text \<open>
  A host three hours later: the offset file holds inode 1, offset 2 and the time
  10:30:45 of 2024-01-15, the clock says 13:10, and archives exist for the hours 11
  and 13. The session is what \<open>__init__\<close> makes of it.
\<close>

definition gz_archive :: "string \<Rightarrow> inode" where
  "gz_archive text = \<lparr>bytes = ''(gzip data)'', inflated = Some text\<rparr>"

definition archive_world :: world where
  "archive_world =
     \<lparr>dirents = map_of [(''app.log'', 1), (''app.log.offset'', 3),
                        (''app.log_web1_2024011511.gz'', 4), (''app.log_web1_2024011513.gz'', 5)],
      inodes = (\<lambda>i. no_file)
                 (1 := plain ''a\<newline>b\<newline>'',
                  3 := plain ''1\<newline>2\<newline>2024-01-15T10:30:45.123456\<newline>'',
                  4 := gz_archive ''k\<newline>l\<newline>m\<newline>'',
                  5 := gz_archive ''n\<newline>''),
      next_ino = 10,
      clock = 63840921000000000,
      gethostname = ''web1.example.org'',
      logged = []\<rparr>"

definition catchup_session :: pygtail where
  "catchup_session =
     fresh_session\<lparr>offset_file_inode := Some 1, offset := Some 2,
                   last_log := Some 63840911445123456,
                   rotated_logfiles := [''app.log_web1_2024011511.gz''], catching_up := True\<rparr>"


section \<open>Properties\<close>

text \<open>The definitions that evaluating a pull on a given world unfolds.\<close>

lemmas eval_defs = next_line_def get_next_line_def filehandle_readline_def filehandle_def readline_def
  stream_def check_rotate_truncate_def stat_def update_and_stop_def update_offset_file_def
  is_closed_def return_line_def reload_def open_next_def open_read_def seek_def get_offset_def
  write_file_def emit_def Let_def plain_def no_file_def

subsection \<open>What the methods leave alone, and which exceptions they raise\<close>

lemma same_settings_refl [simp]: "same_settings s s"
  by (simp add: same_settings_def)

lemma same_settings_trans: "same_settings a b \<Longrightarrow> same_settings b c \<Longrightarrow> same_settings a c"
  by (simp add: same_settings_def)

lemma parse_offset_file_settings: "parse_offset_file s w = (r, s') \<Longrightarrow> same_settings s s'"
  by (auto simp: parse_offset_file_def same_settings_def Let_def split: if_splits sum.splits)


lemma get_offset_Some: "offset s = Some off \<Longrightarrow> get_offset s w = (Inr off, s)"
  by (simp add: get_offset_def)



lemma filehandle_open: "fh s = Some h \<Longrightarrow> \<not> h_closed h \<Longrightarrow> filehandle s w = (Inr h, s)"
  by (simp add: filehandle_def)





















lemma wait_exhausted:
  "0 \<le> wait_timeout s \<Longrightarrow> wait_timeout s \<le> time_waited s \<Longrightarrow>
     wait_for_update s w sc = Some (Inl StopIteration, s, w, sc)"
  by (cases sc) auto




lemma emit_fields [simp]:
  "dirents (emit l m w) = dirents w" "inodes (emit l m w) = inodes w"
  "clock (emit l m w) = clock w" "next_ino (emit l m w) = next_ino w"
  "gethostname (emit l m w) = gethostname w" "logged (emit l m w) = logged w @ [(l, m)]"
  by (simp_all add: emit_def)

lemma stat_emit [simp]: "stat (emit l m w) p = stat w p"
  by (simp add: stat_def split: option.splits)

lemma stream_emit [simp]: "stream (emit l m w) h = stream w h"
  by (simp add: stream_def)

lemma reload_open: "fh s = Some h \<Longrightarrow> reload s = (Inr (), reloaded s h)"
  by (simp add: reload_def reloaded_def)

lemma reloaded_fields [simp]:
  "fh (reloaded s h) = Some (h\<lparr>h_closed := True\<rparr>)" "offset (reloaded s h) = Some 0"
  "rotated_logfiles (reloaded s h) = rotated_logfiles s"
  "same_settings s (reloaded s h)"
  by (simp_all add: reloaded_def same_settings_def)

lemma reloaded_twice: "reloaded (reloaded s h) (h\<lparr>h_closed := True\<rparr>) = reloaded s h"
  by (simp add: reloaded_def)

lemma check_rotate_truncate_open:
  assumes "fh s = Some h" "\<not> h_closed h"
  shows "check_rotate_truncate s w =
    (case stat w (filename s) of
       None \<Rightarrow> (Inr (), reloaded s h, emit INFO ''File moved, reloading...'' w)
     | Some (i, sz) \<Rightarrow>
         (Inr (),
          (if h_ino h \<noteq> i \<or> (copytruncate s \<and> sz < h_pos h) then reloaded s h else s),
          (if copytruncate s \<and> sz < h_pos h then emit INFO ''File truncated, reloading...'' else id)
            ((if h_ino h \<noteq> i then emit INFO ''File rotated, reloading...'' else id) w)))"
proof (cases "stat w (filename s)")
  case None
  with assms show ?thesis
    by (simp add: check_rotate_truncate_def filehandle_open reload_open)
next
  case (Some p)
  obtain i sz where p: "p = (i, sz)" by (cases p)
  have cs: "copytruncate (reloaded s h) = copytruncate s"
    by (simp add: reloaded_def)
  show ?thesis
  proof (cases "h_ino h \<noteq> i")
    case True
    with assms Some p cs show ?thesis
      by (simp add: check_rotate_truncate_def filehandle_open reload_open reloaded_twice)
  next
    case False
    with assms Some p show ?thesis
      by (simp add: check_rotate_truncate_def filehandle_open reload_open)
  qed
qed

lemma filehandle_readline_open:
  assumes "fh s = Some h" "\<not> h_closed h" "stream w h = Some data"
  shows "filehandle_readline s w =
           (Inr (first_line (drop (h_pos h) data)),
            s\<lparr>fh := Some (h\<lparr>h_pos := h_pos h + length (first_line (drop (h_pos h) data))\<rparr>)\<rparr>)"
  using assms by (simp add: filehandle_readline_def filehandle_open readline_def Let_def)

lemma open_next_live:
  assumes "rotated_logfiles s = []" "offset s = Some 0" "dirents w (filename s) = Some i"
  shows "open_next s w = (Inr (live_handle s i), s\<lparr>fh := Some (live_handle s i)\<rparr>)"
proof -
  have eq: "s\<lparr>rotated_logfiles := []\<rparr> = s"
    using assms(1) by (cases s) simp
  have sk: "seek w (live_handle s i) 0 = Inr (live_handle s i)"
    by (simp add: seek_def live_handle_def)
  show ?thesis
    using assms sk
    by (simp add: open_next_def Let_def eq open_read_def get_offset_Some live_handle_def)
qed

lemma filehandle_readline_reopen:
  assumes "fh s = Some h" "h_closed h" "rotated_logfiles s = []" "offset s = Some 0"
    and "dirents w (filename s) = Some i" "stream w (live_handle s i) = Some data"
  shows "filehandle_readline s w =
           (Inr (first_line data),
            s\<lparr>fh := Some ((live_handle s i)\<lparr>h_pos := length (first_line data)\<rparr>)\<rparr>)"
proof -
  have "filehandle s w = (Inr (live_handle s i), s\<lparr>fh := Some (live_handle s i)\<rparr>)"
    using assms by (simp add: filehandle_def open_next_live)
  moreover have "readline w (live_handle s i) =
      Inr (first_line data, (live_handle s i)\<lparr>h_pos := length (first_line data)\<rparr>)"
    using assms(6) by (simp add: readline_def live_handle_def Let_def)
  ultimately show ?thesis
    by (simp add: filehandle_readline_def)
qed

lemma filehandle_result:
  "filehandle s w = (Inr h, s') \<Longrightarrow> fh s' = Some h \<and> \<not> h_closed h"
  by (auto simp: filehandle_def open_next_def Let_def open_read_def seek_def
      split: option.splits if_splits sum.splits prod.splits)

lemma readline_result: "readline w h = Inr (l, h') \<Longrightarrow> \<not> h_closed h' \<and> h_ino h' = h_ino h"
  by (auto simp: readline_def Let_def split: if_splits option.splits)








lemma init_cases:
  assumes "init f p par c ws wt hn w = Inr s"
  obtains s1 where "parse_offset_file (new_object f p par c ws wt hn w) w = (Inr (), s1)"
    and "s = s1 \<or> (\<exists>files. s = s1\<lparr>rotated_logfiles := files, catching_up := (files \<noteq> [])\<rparr>)"
proof -
  obtain r s1 where ps: "parse_offset_file (new_object f p par c ws wt hn w) w = (r, s1)"
    by (cases "parse_offset_file (new_object f p par c ws wt hn w) w")
  with assms have "r = Inr ()"
    by (auto simp: init_def split: sum.splits)
  moreover from assms ps
  have "s = s1 \<or> (\<exists>files. s = s1\<lparr>rotated_logfiles := files, catching_up := (files \<noteq> [])\<rparr>)"
    by (auto simp: init_def split: sum.splits if_splits)
  ultimately show ?thesis using ps that by blast
qed

lemma init_time_waited:
  assumes "init f p par c ws wt hn w = Inr s"
  shows "time_waited s = 0 \<and> wait_step s = ws \<and> wait_timeout s = wt \<and> fh s = None"
proof -
  from assms obtain s1 where ps: "parse_offset_file (new_object f p par c ws wt hn w) w = (Inr (), s1)"
    and s: "s = s1 \<or> (\<exists>files. s = s1\<lparr>rotated_logfiles := files, catching_up := (files \<noteq> [])\<rparr>)"
    by (rule init_cases)
  have "time_waited s1 = 0 \<and> wait_step s1 = ws \<and> wait_timeout s1 = wt"
    using parse_offset_file_settings [OF ps] by (simp add: same_settings_def new_object_def)
  moreover have "fh s1 = None"
    using ps by (auto simp: parse_offset_file_def Let_def new_object_def split: if_splits sum.splits)
  ultimately show ?thesis using s by auto
qed


lemma update_offset_file_open:
  assumes "fh s = Some h" "\<not> h_closed h" "stat w (filename s) = Some (i, sz)"
  shows "update_offset_file s w =
           (Inr (), s, write_file w (offset_file s) (offset_text i (h_pos h) (clock w)))"
  using assms by (simp add: update_offset_file_def is_closed_def filehandle_open)

lemma reloaded_settings [simp]:
  "filename (reloaded s h) = filename s" "paranoid (reloaded s h) = paranoid s"
  "copytruncate (reloaded s h) = copytruncate s" "wait_step (reloaded s h) = wait_step s"
  "wait_timeout (reloaded s h) = wait_timeout s" "time_waited (reloaded s h) = time_waited s"
  "offset_file (reloaded s h) = offset_file s" "hostname (reloaded s h) = hostname s"
  "catching_up (reloaded s h) = catching_up s"
  by (simp_all add: reloaded_def)


lemma update_offset_file_reloaded:
  "update_offset_file (reloaded s h) w = (Inr (), reloaded s h, w)"
  by (simp add: update_offset_file_def is_closed_def)

lemma check_rotate_truncate_open_cases:
  assumes "fh s = Some h" "\<not> h_closed h"
  obtains w' where "check_rotate_truncate s w = (Inr (), reloaded s h, w')"
      and "dirents w' = dirents w" and "inodes w' = inodes w" and "clock w' = clock w"
    | w' i sz where "check_rotate_truncate s w = (Inr (), s, w')"
      and "dirents w' = dirents w" and "inodes w' = inodes w" and "clock w' = clock w"
      and "stat w (filename s) = Some (i, sz)"
proof (cases "stat w (filename s)")
  case None
  with check_rotate_truncate_open [OF assms, of w] that(1) show ?thesis by simp
next
  case (Some p)
  obtain i sz where p: "p = (i, sz)" by (cases p)
  show ?thesis
  proof (cases "h_ino h \<noteq> i \<or> (copytruncate s \<and> sz < h_pos h)")
    case True
    have "check_rotate_truncate s w = (Inr (), reloaded s h,
       (if copytruncate s \<and> sz < h_pos h then emit INFO ''File truncated, reloading...'' else id)
            ((if h_ino h \<noteq> i then emit INFO ''File rotated, reloading...'' else id) w))"
      using check_rotate_truncate_open [OF assms, of w] Some p True by simp
    then show ?thesis by (rule that(1)) auto
  next
    case False
    have "check_rotate_truncate s w = (Inr (), s, w)"
      using check_rotate_truncate_open [OF assms, of w] Some p False by auto
    then show ?thesis using Some p by (intro that(2) [of w i sz]) auto
  qed
qed


lemma first_line_empty [simp]: "first_line data = [] \<longleftrightarrow> data = []"
  by (cases data) auto

lemma stream_plain: "\<not> h_gz h \<Longrightarrow> stream w h = Some (bytes (inodes w (h_ino h)))"
  by (simp add: stream_def)

lemma fh_same: "fh s = Some h \<Longrightarrow> s\<lparr>fh := Some h\<rparr> = s"
  by (cases s) simp

lemma filehandle_readline_eof:
  assumes "fh s = Some h" "\<not> h_closed h" "\<not> h_gz h"
    and "length (bytes (inodes w (h_ino h))) \<le> h_pos h"
  shows "filehandle_readline s w = (Inr [], s)"
  using assms filehandle_readline_open [OF assms(1,2) stream_plain [OF assms(3)], of w]
  by (simp add: fh_same)

lemma next_line_of_line:
  "get_next_line s w sc = Some (Inr line, s1, w1, sc1) \<Longrightarrow>
     next_line s w sc = return_line line s1 w1 sc1"
  by (simp add: next_line_def)

lemma return_line_open:
  assumes "fh s = Some h" "\<not> h_closed h" "stat w (filename s) = Some (i, sz)"
  shows "return_line line s w sc =
           Some (Inr line, s,
                 (if paranoid s then write_file w (offset_file s) (offset_text i (h_pos h) (clock w))
                  else w), sc)"
  using assms by (simp add: return_line_def update_offset_file_open)

lemma wait_reopen:
  assumes "wait_timeout s < 0 \<or> time_waited s < wait_timeout s" "0 \<le> wait_step s"
    and "fh s = Some h" "h_closed h" "rotated_logfiles s = []" "offset s = Some 0"
    and "\<not> endswith (filename s) ''.gz''"
    and "dirents (sleep w) (filename s) = Some i" "bytes (inodes (sleep w) i) \<noteq> []"
  shows "wait_for_update s w (sleep # rest) =
           Some (Inr (first_line (bytes (inodes (sleep w) i))),
                 s\<lparr>time_waited := 0,
                   fh := Some ((live_handle s i)\<lparr>h_pos := length (first_line (bytes (inodes (sleep w) i)))\<rparr>)\<rparr>,
                 sleep w, rest)"
proof -
  let ?s1 = "s\<lparr>time_waited := time_waited s + wait_step s\<rparr>"
  have st: "stream (sleep w) (live_handle ?s1 i) = Some (bytes (inodes (sleep w) i))"
    using assms(7) by (simp add: stream_def live_handle_def)
  have "filehandle_readline ?s1 (sleep w) =
          (Inr (first_line (bytes (inodes (sleep w) i))),
           ?s1\<lparr>fh := Some ((live_handle ?s1 i)\<lparr>h_pos := length (first_line (bytes (inodes (sleep w) i)))\<rparr>)\<rparr>)"
    using assms by (intro filehandle_readline_reopen [where h = h] st) simp_all
  with assms show ?thesis
    by (simp add: Let_def live_handle_def)
qed


lemma pull_after_reload:
  assumes nc: "\<not> catching_up s" and rot: "rotated_logfiles s = []"
    and gz: "\<not> endswith (filename s) ''.gz''"
    and h: "fh s = Some h" "\<not> h_closed h"
    and eof: "filehandle_readline s w = (Inr [], s)"
    and ck: "check_rotate_truncate s w = (Inr (), reloaded s h, w0)"
    and same: "dirents w0 = dirents w" "inodes w0 = inodes w"
    and budget: "wait_timeout s < 0 \<or> time_waited s < wait_timeout s" "0 \<le> wait_step s"
    and quiet: "keeps_files sleep"
    and live: "dirents w (filename s) = Some i" "bytes (inodes w i) \<noteq> []"
  shows "next_line s w (sleep # rest) =
           Some (Inr (first_line (bytes (inodes w i))),
                 s\<lparr>time_waited := 0, offset := Some 0,
                   fh := Some ((live_handle s i)\<lparr>h_pos := length (first_line (bytes (inodes w i)))\<rparr>)\<rparr>,
                 (if paranoid s
                  then write_file (sleep w0) (offset_file s)
                         (offset_text i (length (first_line (bytes (inodes w i)))) (clock (sleep w0)))
                  else sleep w0),
                 rest)"
proof -
  let ?line = "first_line (bytes (inodes w i))"
  let ?h1 = "(live_handle s i)\<lparr>h_pos := length ?line\<rparr>"
  let ?s1 = "s\<lparr>time_waited := 0, offset := Some 0, fh := Some ?h1\<rparr>"
  have d1: "dirents (sleep w0) = dirents w" "inodes (sleep w0) = inodes w"
    using quiet same by (simp_all add: keeps_files_def)
  have "wait_for_update (reloaded s h) w0 (sleep # rest) =
          Some (Inr (first_line (bytes (inodes (sleep w0) i))),
                (reloaded s h)\<lparr>time_waited := 0,
                   fh := Some ((live_handle (reloaded s h) i)
                                \<lparr>h_pos := length (first_line (bytes (inodes (sleep w0) i)))\<rparr>)\<rparr>,
                sleep w0, rest)"
    using budget rot gz live d1
    by (intro wait_reopen [where h = "h\<lparr>h_closed := True\<rparr>"]) simp_all
  moreover have "(reloaded s h)\<lparr>time_waited := 0,
                   fh := Some ((live_handle (reloaded s h) i)\<lparr>h_pos := length ?line\<rparr>)\<rparr> = ?s1"
    by (simp add: reloaded_def live_handle_def)
  ultimately have "get_next_line s w (sleep # rest) = Some (Inr ?line, ?s1, sleep w0, rest)"
    using eof nc ck d1 by (simp add: get_next_line_def)
  then have n: "next_line s w (sleep # rest) = return_line ?line ?s1 (sleep w0) rest"
    by (rule next_line_of_line)
  have st: "stat (sleep w0) (filename ?s1) = Some (i, length (bytes (inodes w i)))"
    using live d1 by (simp add: stat_def)
  have "return_line ?line ?s1 (sleep w0) rest =
          Some (Inr ?line, ?s1,
                (if paranoid ?s1
                 then write_file (sleep w0) (offset_file ?s1) (offset_text i (h_pos ?h1) (clock (sleep w0)))
                 else sleep w0), rest)"
    by (rule return_line_open [OF _ _ st]) (simp_all add: live_handle_def)
  with n show ?thesis by simp
qed

lemma pull_exhausted_after_reload:
  assumes nc: "\<not> catching_up s"
    and eof: "filehandle_readline s w = (Inr [], s)"
    and ck: "check_rotate_truncate s w = (Inr (), reloaded s h, w0)"
    and out: "0 \<le> wait_timeout s" "wait_timeout s \<le> time_waited s"
  shows "next_line s w sc =
           Some (Inl StopIteration, reloaded s h,
                 emit DEBUG ''StopIteration at the main file, exiting'' w0, sc)"
proof -
  have "wait_for_update (reloaded s h) w0 sc = Some (Inl StopIteration, reloaded s h, w0, sc)"
    using out by (intro wait_exhausted) simp_all
  with eof nc ck have "get_next_line s w sc = Some (Inl StopIteration, reloaded s h, w0, sc)"
    by (simp add: get_next_line_def)
  with nc show ?thesis
    by (simp add: next_line_def update_and_stop_def update_offset_file_reloaded)
qed

subsection \<open>Truncation in place\<close>

text \<open>
  C4. Copytruncate is on, the session tails the live file (a plain file) through
  an open file object at position \<open>X\<close>, and the file at the live path is still that
  inode but shorter than \<open>X\<close>. Then \<open>_check_rotate_truncate\<close> closes the file object and
  sets the offset to 0. If waiting time is left (\<open>wait_timeout\<close> negative or
  \<open>time_waited\<close> below it), the step is not negative, the files stay as they are
  during the first sleep and the file is not empty, the pull reopens the same
  inode at position 0 and returns its first line. If the waiting time is used up,
  the pull raises \<open>StopIteration\<close> with the offset reset and the file closed, and
  writes no offset file.
\<close>

theorem truncation_resets_offset:
  assumes "copytruncate s" "\<not> catching_up s" "rotated_logfiles s = []"
    and "\<not> endswith (filename s) ''.gz''"
    and "fh s = Some h" "\<not> h_closed h" "\<not> h_gz h"
    and "dirents w (filename s) = Some (h_ino h)"
    and "length (bytes (inodes w (h_ino h))) < h_pos h"
  shows "check_rotate_truncate s w =
           (Inr (), reloaded s h, emit INFO ''File truncated, reloading...'' w)
    \<and> ((wait_timeout s < 0 \<or> time_waited s < wait_timeout s) \<and> 0 \<le> wait_step s
        \<and> keeps_files sleep \<and> bytes (inodes w (h_ino h)) \<noteq> []
       \<longrightarrow> next_line s w (sleep # rest) =
             Some (Inr (first_line (bytes (inodes w (h_ino h)))),
                   s\<lparr>time_waited := 0, offset := Some 0,
                     fh := Some ((live_handle s (h_ino h))
                                  \<lparr>h_pos := length (first_line (bytes (inodes w (h_ino h))))\<rparr>)\<rparr>,
                   (if paranoid s
                    then write_file (sleep (emit INFO ''File truncated, reloading...'' w)) (offset_file s)
                           (offset_text (h_ino h) (length (first_line (bytes (inodes w (h_ino h)))))
                              (clock (sleep (emit INFO ''File truncated, reloading...'' w))))
                    else sleep (emit INFO ''File truncated, reloading...'' w)),
                   rest))
    \<and> (0 \<le> wait_timeout s \<and> wait_timeout s \<le> time_waited s
       \<longrightarrow> next_line s w sc =
             Some (Inl StopIteration, reloaded s h,
                   emit DEBUG ''StopIteration at the main file, exiting''
                     (emit INFO ''File truncated, reloading...'' w), sc))"
proof -
  have ck: "check_rotate_truncate s w =
           (Inr (), reloaded s h, emit INFO ''File truncated, reloading...'' w)"
    using assms check_rotate_truncate_open [OF assms(5,6), of w]
    by (simp add: stat_def)
  have eof: "filehandle_readline s w = (Inr [], s)"
    using assms by (intro filehandle_readline_eof [where h = h]) simp_all
  show ?thesis
  proof (intro conjI impI)
    show "check_rotate_truncate s w =
           (Inr (), reloaded s h, emit INFO ''File truncated, reloading...'' w)"
      by (rule ck)
  next
    assume "(wait_timeout s < 0 \<or> time_waited s < wait_timeout s) \<and> 0 \<le> wait_step s
        \<and> keeps_files sleep \<and> bytes (inodes w (h_ino h)) \<noteq> []"
    then show "next_line s w (sleep # rest) =
             Some (Inr (first_line (bytes (inodes w (h_ino h)))),
                   s\<lparr>time_waited := 0, offset := Some 0,
                     fh := Some ((live_handle s (h_ino h))
                                  \<lparr>h_pos := length (first_line (bytes (inodes w (h_ino h))))\<rparr>)\<rparr>,
                   (if paranoid s
                    then write_file (sleep (emit INFO ''File truncated, reloading...'' w)) (offset_file s)
                           (offset_text (h_ino h) (length (first_line (bytes (inodes w (h_ino h)))))
                              (clock (sleep (emit INFO ''File truncated, reloading...'' w))))
                    else sleep (emit INFO ''File truncated, reloading...'' w)),
                   rest)"
      using assms by (intro pull_after_reload [OF _ _ _ _ _ eof ck]) simp_all
  next
    assume "0 \<le> wait_timeout s \<and> wait_timeout s \<le> time_waited s"
    then show "next_line s w sc =
             Some (Inl StopIteration, reloaded s h,
                   emit DEBUG ''StopIteration at the main file, exiting''
                     (emit INFO ''File truncated, reloading...'' w), sc)"
      using assms by (intro pull_exhausted_after_reload [OF _ eof ck]) simp_all
  qed
qed


lemma keeps_files_nap: "keeps_files nap"
  by (simp add: keeps_files_def nap_def)

text \<open>The definitions of the sample worlds and sessions.\<close>

lemmas sample_defs = sample_world_def fresh_session_def tailing_def waited_out_def at_end_def
  shrunk_world_def rotated_world_def nap_def append_c_def newline_def live_handle_def reloaded_def
  endswith_def

text \<open>With \<open>wait_timeout = 0\<close> the pull after a truncation reads nothing: it raises
  \<open>StopIteration\<close> and leaves the sleep unused.\<close>

theorem truncation_resets_offset_counterexample:
  "next_line (tailing\<lparr>wait_timeout := 0\<rparr>) shrunk_world [nap] =
     Some (Inl StopIteration,
           tailing\<lparr>wait_timeout := 0, fh := Some (at_end\<lparr>h_closed := True\<rparr>)\<rparr>,
           shrunk_world\<lparr>logged := [(INFO, ''File truncated, reloading...''),
                                   (DEBUG, ''StopIteration at the main file, exiting'')]\<rparr>,
           [nap])"
  by (simp add: eval_defs sample_defs)

text \<open>The three parts on the truncated sample file.\<close>

theorem truncation_resets_offset_witness:
  "check_rotate_truncate tailing shrunk_world =
     (Inr (), tailing\<lparr>fh := Some (at_end\<lparr>h_closed := True\<rparr>)\<rparr>,
      shrunk_world\<lparr>logged := [(INFO, ''File truncated, reloading...'')]\<rparr>)
   \<and> next_line tailing shrunk_world [nap] =
       Some (Inr ''x\<newline>'', tailing\<lparr>fh := Some (at_end\<lparr>h_pos := 2\<rparr>)\<rparr>,
             shrunk_world\<lparr>logged := [(INFO, ''File truncated, reloading...'')],
                          clock := 63840911445623456\<rparr>, [])
   \<and> next_line waited_out shrunk_world [nap] =
       Some (Inl StopIteration, waited_out\<lparr>fh := Some (at_end\<lparr>h_closed := True\<rparr>)\<rparr>,
             shrunk_world\<lparr>logged := [(INFO, ''File truncated, reloading...''),
                                     (DEBUG, ''StopIteration at the main file, exiting'')]\<rparr>,
             [nap])"
proof -
  have a: "copytruncate tailing" "\<not> catching_up tailing" "rotated_logfiles tailing = []"
    "\<not> endswith (filename tailing) ''.gz''" "fh tailing = Some at_end" "\<not> h_closed at_end"
    "\<not> h_gz at_end" "dirents shrunk_world (filename tailing) = Some (h_ino at_end)"
    "length (bytes (inodes shrunk_world (h_ino at_end))) < h_pos at_end"
    by (simp_all add: sample_defs plain_def)
  have b: "(wait_timeout tailing < 0 \<or> time_waited tailing < wait_timeout tailing)
      \<and> 0 \<le> wait_step tailing \<and> keeps_files nap
      \<and> bytes (inodes shrunk_world (h_ino at_end)) \<noteq> []"
    by (simp add: keeps_files_nap) (simp add: sample_defs plain_def)
  have a': "copytruncate waited_out" "\<not> catching_up waited_out" "rotated_logfiles waited_out = []"
    "\<not> endswith (filename waited_out) ''.gz''" "fh waited_out = Some at_end"
    "dirents shrunk_world (filename waited_out) = Some (h_ino at_end)"
    by (simp_all add: sample_defs plain_def)
  have c: "0 \<le> wait_timeout waited_out \<and> wait_timeout waited_out \<le> time_waited waited_out"
    by (simp add: sample_defs)
  from truncation_resets_offset [OF a, of nap "[]" "[]"] b
  have 1: "check_rotate_truncate tailing shrunk_world =
     (Inr (), tailing\<lparr>fh := Some (at_end\<lparr>h_closed := True\<rparr>)\<rparr>,
      shrunk_world\<lparr>logged := [(INFO, ''File truncated, reloading...'')]\<rparr>)"
    and 2: "next_line tailing shrunk_world [nap] =
       Some (Inr ''x\<newline>'', tailing\<lparr>fh := Some (at_end\<lparr>h_pos := 2\<rparr>)\<rparr>,
             shrunk_world\<lparr>logged := [(INFO, ''File truncated, reloading...'')],
                          clock := 63840911445623456\<rparr>, [])"
    by (simp_all add: sample_defs plain_def emit_def)
  from truncation_resets_offset [OF a'(1-5) a(6,7) a'(6) a(9), of nap "[]" "[nap]"] c
  have 3: "next_line waited_out shrunk_world [nap] =
       Some (Inl StopIteration, waited_out\<lparr>fh := Some (at_end\<lparr>h_closed := True\<rparr>)\<rparr>,
             shrunk_world\<lparr>logged := [(INFO, ''File truncated, reloading...''),
                                     (DEBUG, ''StopIteration at the main file, exiting'')]\<rparr>,
             [nap])"
    by (simp add: sample_defs plain_def emit_def)
  from 1 2 3 show ?thesis by simp
qed


subsection \<open>Rotation by rename\<close>




subsection \<open>Truncation with copytruncate off\<close>

text \<open>
  C5. Copytruncate is off and the live file, still the same inode, is shorter
  than the read position. \<open>_check_rotate_truncate\<close> raises nothing and leaves the
  object as it is, position and offset included; it also leaves the world as it
  is, so no record of any level reaches \<open>logging\<close>. A whole pull on such a file ends
  in \<open>StopIteration\<close> with the position unchanged and a single record, of level
  \<open>DEBUG\<close>.
\<close>

lemma replicate_numeral: "replicate (numeral v) x = x # replicate (numeral v - 1) x"
  by (simp add: numeral_eq_Suc)

lemmas calendar_defs = dt_date_def dt_year_def dt_month_def dt_day_def dt_hour_def dt_minute_def
  dt_second_def dt_microsecond_def ord2ymd_def month_day_def us_per_day_def us_per_hour_def us_per_second_def
  zpad_def str_nat.simps digit_char_def replicate_numeral Let_def

lemma strftime_dt_nap: "strftime_dt 63840911445623456 = ''2024-01-15T10:30:45.623456''"
  by (simp add: strftime_dt_def calendar_defs)

lemma offset_text_nap:
  "offset_text (Suc 0) 4 63840911445623456 = ''1\<newline>4\<newline>2024-01-15T10:30:45.623456\<newline>''"
  by (simp add: offset_text_def strftime_dt_nap str_int_def str_nat.simps digit_char_def newline_def)

theorem shrink_without_copytruncate_is_silent:
  "check_rotate_truncate (tailing\<lparr>copytruncate := False\<rparr>) shrunk_world =
     (Inr (), tailing\<lparr>copytruncate := False\<rparr>, shrunk_world)
   \<and> logged shrunk_world = []
   \<and> next_line (tailing\<lparr>copytruncate := False, wait_timeout := 1 / 2\<rparr>) shrunk_world [nap, nap] =
       Some (Inl StopIteration,
             tailing\<lparr>copytruncate := False, wait_timeout := 1 / 2, time_waited := 1 / 2\<rparr>,
             write_file (shrunk_world\<lparr>clock := 63840911445623456,
                           logged := [(DEBUG, ''StopIteration at the main file, exiting'')]\<rparr>)
               ''app.log.offset'' ''1\<newline>4\<newline>2024-01-15T10:30:45.623456\<newline>'',
             [nap])"
  by (simp add: eval_defs sample_defs offset_text_nap)

subsection \<open>The rotated files\<close>

lemma us_per_hour_pos: "0 < us_per_hour"
  by (simp add: us_per_hour_def us_per_second_def)

lemma rotated_loop_hours:
  "rotated_loop s w start (start + int n * us_per_hour) acc =
     acc @ filter (exists w) (map (\<lambda>k. candidate s (start + int k * us_per_hour)) [0..<n])"
proof (induction n arbitrary: start acc)
  case 0
  show ?case by (subst rotated_loop.simps) simp
next
  case (Suc n)
  have lt: "start < start + int (Suc n) * us_per_hour"
    using us_per_hour_pos by simp
  have eq: "start + int (Suc n) * us_per_hour = (start + us_per_hour) + int n * us_per_hour"
    by (simp add: algebra_simps)
  have m: "map (\<lambda>k. candidate s (start + int k * us_per_hour)) [0..<Suc n] =
        candidate s start # map (\<lambda>k. candidate s ((start + us_per_hour) + int k * us_per_hour)) [0..<n]"
    by (simp add: upt_rec [of 0 "Suc n"] map_Suc_upt [symmetric] algebra_simps del: upt_Suc)
  have "rotated_loop s w start (start + int (Suc n) * us_per_hour) acc =
          rotated_loop s w (start + us_per_hour) (start + int (Suc n) * us_per_hour)
            (if exists w (candidate s start) then acc @ [candidate s start] else acc)"
    using lt by (subst rotated_loop.simps) (simp only: if_True)
  also have "\<dots> = (if exists w (candidate s start) then acc @ [candidate s start] else acc) @
      filter (exists w) (map (\<lambda>k. candidate s ((start + us_per_hour) + int k * us_per_hour)) [0..<n])"
    unfolding eq by (rule Suc.IH)
  also have "\<dots> = acc @ filter (exists w)
      (map (\<lambda>k. candidate s (start + int k * us_per_hour)) [0..<Suc n])"
    unfolding m by simp
  finally show ?case .
qed

lemma floor_hour_eval: "floor_hour 63840911445123456 = 63840909600000000"
  by (simp add: floor_hour_def us_per_hour_def us_per_second_def)


lemma elapsed_hours_eq: "((int n * us_per_hour) div us_per_second) div 60 div 60 = int n"
  by (simp add: us_per_hour_def us_per_second_def)

text \<open>
  C2. With the last read in hour \<open>H0\<close> and the clock \<open>n\<close> hours later, the rotated
  files are looked for hour by hour from \<open>H0\<close> itself up to, but not including, the
  clock's hour, and those that exist are returned in that order. For \<open>n = 3\<close> these
  are the existing ones of the archives of \<open>H0\<close>, \<open>H0+1\<close> and \<open>H0+2\<close>; the archive of
  \<open>H0+3\<close> is not looked for.
\<close>

theorem pending_archives:
  assumes "last_log s = Some t" "floor_hour (clock w) = floor_hour t + int n * us_per_hour"
  shows "determine_rotated_logfiles s w =
           Inr (filter (exists w)
                  (map (\<lambda>k. candidate s (floor_hour t + int k * us_per_hour)) [0..<n]))
    \<and> (n = 3 \<longrightarrow>
         determine_rotated_logfiles s w =
           Inr (filter (exists w)
                  [candidate s (floor_hour t), candidate s (floor_hour t + us_per_hour),
                   candidate s (floor_hour t + 2 * us_per_hour)]))"
proof -
  have g: "determine_rotated_logfiles s w =
           Inr (filter (exists w)
                  (map (\<lambda>k. candidate s (floor_hour t + int k * us_per_hour)) [0..<n]))"
  proof (cases "n = 0")
    case True
    with assms show ?thesis
      by (simp add: determine_rotated_logfiles_def)
  next
    case False
    with assms elapsed_hours_eq [of n] rotated_loop_hours [of s w "floor_hour t" n "[]"]
    show ?thesis
      by (simp add: determine_rotated_logfiles_def Let_def)
  qed
  have l3: "[0..<3] = [0, 1, 2]"
    by (simp add: upt_rec)
  from g show ?thesis
    by (auto simp: l3)
qed

text \<open>The hours of the sample world.\<close>

lemmas hour_defs = floor_hour_def candidate_def strftime_log_hour_def

lemma sample_hours:
  "floor_hour 63840911445123456 = 63840909600000000"
  "floor_hour 63840921000000000 = 63840920400000000"
  "strftime_log_hour 63840909600000000 = ''2024011510''"
  "strftime_log_hour 63840913200000000 = ''2024011511''"
  "strftime_log_hour 63840916800000000 = ''2024011512''"
  "strftime_log_hour 63840920400000000 = ''2024011513''"
  by (simp_all add: hour_defs calendar_defs)

text \<open>Last read at 10:30, clock at 13:10, archives for 11 and 13 but not 12: only the
  archive of 11 is returned.\<close>

theorem pending_archives_counterexample:
  "last_log catchup_session = Some 63840911445123456
   \<and> floor_hour (clock archive_world) = floor_hour 63840911445123456 + 3 * us_per_hour
   \<and> candidate catchup_session (floor_hour 63840911445123456 + us_per_hour)
       = ''app.log_web1_2024011511.gz''
   \<and> candidate catchup_session (floor_hour 63840911445123456 + 2 * us_per_hour)
       = ''app.log_web1_2024011512.gz''
   \<and> candidate catchup_session (floor_hour 63840911445123456 + 3 * us_per_hour)
       = ''app.log_web1_2024011513.gz''
   \<and> exists archive_world ''app.log_web1_2024011511.gz''
   \<and> \<not> exists archive_world ''app.log_web1_2024011512.gz''
   \<and> exists archive_world ''app.log_web1_2024011513.gz''
   \<and> determine_rotated_logfiles catchup_session archive_world
       = Inr [''app.log_web1_2024011511.gz'']
   \<and> determine_rotated_logfiles catchup_session archive_world
       \<noteq> Inr [''app.log_web1_2024011511.gz'', ''app.log_web1_2024011513.gz'']"
  by (simp add: determine_rotated_logfiles_def Let_def rotated_loop.simps candidate_def
      sample_hours us_per_hour_def us_per_second_def exists_def
      catchup_session_def fresh_session_def archive_world_def)

text \<open>The same world, and a session whose host name matches no archive.\<close>

theorem pending_archives_witness:
  "determine_rotated_logfiles catchup_session archive_world = Inr [''app.log_web1_2024011511.gz'']
   \<and> determine_rotated_logfiles (catchup_session\<lparr>hostname := ''web2''\<rparr>) archive_world = Inr []"
proof -
  have a: "last_log catchup_session = Some 63840911445123456"
    "last_log (catchup_session\<lparr>hostname := ''web2''\<rparr>) = Some 63840911445123456"
    by (simp_all add: catchup_session_def)
  have b: "floor_hour (clock archive_world) = floor_hour 63840911445123456 + int 3 * us_per_hour"
    by (simp add: archive_world_def sample_hours us_per_hour_def us_per_second_def)
  have e: "filter (exists archive_world)
              [candidate catchup_session (floor_hour 63840911445123456),
               candidate catchup_session (floor_hour 63840911445123456 + us_per_hour),
               candidate catchup_session (floor_hour 63840911445123456 + 2 * us_per_hour)]
            = [''app.log_web1_2024011511.gz'']"
    "filter (exists archive_world)
              [candidate (catchup_session\<lparr>hostname := ''web2''\<rparr>) (floor_hour 63840911445123456),
               candidate (catchup_session\<lparr>hostname := ''web2''\<rparr>)
                 (floor_hour 63840911445123456 + us_per_hour),
               candidate (catchup_session\<lparr>hostname := ''web2''\<rparr>)
                 (floor_hour 63840911445123456 + 2 * us_per_hour)]
            = []"
    by (simp_all add: candidate_def sample_hours us_per_hour_def us_per_second_def exists_def
        catchup_session_def fresh_session_def archive_world_def)
  have 1: "determine_rotated_logfiles catchup_session archive_world
             = Inr [''app.log_web1_2024011511.gz'']"
    using pending_archives [OF a(1) b, THEN conjunct2, unfolded e] by simp
  have 2: "determine_rotated_logfiles (catchup_session\<lparr>hostname := ''web2''\<rparr>) archive_world
             = Inr []"
    using pending_archives [OF a(2) b, THEN conjunct2, unfolded e] by simp
  from 1 2 show ?thesis by simp
qed

subsection \<open>Where a newly opened file is positioned\<close>

lemma strptime_sample: "strptime_dt ''2024-01-15T10:30:45.123456'' = Some 63840911445123456"
  by (simp add: strptime_dt_def cut_def year_field_def num_field_def day_field_def frac_field_def
      parse_nat_def digit_val_def mk_datetime_def days_in_month_def ymd2ord_def days_before_year_def
      days_before_month_def is_leap_def us_per_second_def)

lemma parse_sample:
  "parse_offset_file (fresh_session\<lparr>offset := None\<rparr>) archive_world =
     (Inr (), fresh_session\<lparr>offset_file_inode := Some 1, offset := Some 2,
                            last_log := Some 63840911445123456\<rparr>)"
  by (simp add: parse_offset_file_def exists_def getsize_def stat_def read_file_def file_lines_def
      strip_def is_space_def int_item_def datetime_item_def item_def py_int_def parse_nat_def
      digit_val_def strptime_sample newline_def Let_def
      archive_world_def fresh_session_def plain_def)

lemma determine_sample:
  "determine_rotated_logfiles
     (fresh_session\<lparr>offset_file_inode := Some 1, offset := Some 2,
                     last_log := Some 63840911445123456\<rparr>) archive_world
     = Inr [''app.log_web1_2024011511.gz'']"
  by (simp add: determine_rotated_logfiles_def Let_def rotated_loop.simps candidate_def
      sample_hours us_per_hour_def us_per_second_def exists_def
      fresh_session_def archive_world_def)

lemma init_sample:
  "init ''app.log'' None False True (1 / 2) 20 None archive_world = Inr catchup_session"
proof -
  have "new_object ''app.log'' None False True (1 / 2) 20 None archive_world
        = fresh_session\<lparr>offset := None\<rparr>"
    by (simp add: new_object_def fresh_session_def archive_world_def)
  then show ?thesis
    using parse_sample determine_sample
    by (simp add: init_def catchup_session_def)
qed

lemma filehandle_sample:
  "filehandle catchup_session archive_world =
     (Inr \<lparr>h_name = ''app.log_web1_2024011511.gz'', h_ino = 4, h_gz = True, h_pos = 2,
           h_closed = False\<rparr>,
      catchup_session\<lparr>rotated_logfiles := [],
                      fh := Some \<lparr>h_name = ''app.log_web1_2024011511.gz'', h_ino = 4, h_gz = True,
                                   h_pos = 2, h_closed = False\<rparr>\<rparr>)"
  by (simp add: eval_defs endswith_def catchup_session_def fresh_session_def archive_world_def
      gz_archive_def)

lemma next_line_sample:
  "next_line catchup_session archive_world [] =
     Some (Inr ''l\<newline>'',
           catchup_session\<lparr>rotated_logfiles := [],
                      fh := Some \<lparr>h_name = ''app.log_web1_2024011511.gz'', h_ino = 4, h_gz = True,
                                   h_pos = 4, h_closed = False\<rparr>\<rparr>,
           archive_world, [])"
  by (simp add: eval_defs endswith_def catchup_session_def fresh_session_def archive_world_def
      gz_archive_def newline_def)


lemma reopens_open [simp]: "fh s = Some h \<Longrightarrow> \<not> h_closed h \<Longrightarrow> reopens_at_zero s"
  by (simp add: reopens_at_zero_def)

lemma reopens_time [simp]: "reopens_at_zero (s\<lparr>time_waited := t\<rparr>) = reopens_at_zero s"
  by (simp add: reopens_at_zero_def split: option.splits)

lemma reopens_catching [simp]: "reopens_at_zero (s\<lparr>catching_up := b\<rparr>) = reopens_at_zero s"
  by (simp add: reopens_at_zero_def split: option.splits)

lemma reopens_reloaded [simp]: "reopens_at_zero (reloaded s h)"
  by (simp add: reopens_at_zero_def reloaded_def)

lemma parse_offset_file_fh: "parse_offset_file s w = (r, s') \<Longrightarrow> fh s' = fh s"
  by (auto simp: parse_offset_file_def Let_def split: if_splits sum.splits)

lemma get_offset_fh: "get_offset s w = (r, s') \<Longrightarrow> fh s' = fh s"
  by (auto simp: get_offset_def split: option.splits prod.splits sum.splits
      dest: parse_offset_file_fh)

lemma seek_open: "seek w h off = Inr h' \<Longrightarrow> h_closed h' = h_closed h"
  by (auto simp: seek_def split: if_splits option.splits)

lemma open_next_reopens:
  assumes "reopens_at_zero s" "open_next s w = (r, s')"
  shows "reopens_at_zero s'"
proof -
  let ?name = "case rotated_logfiles s of [] \<Rightarrow> filename s | f # fs \<Rightarrow> f"
  let ?s1 = "s\<lparr>rotated_logfiles := (case rotated_logfiles s of [] \<Rightarrow> [] | f # fs \<Rightarrow> fs)\<rparr>"
  show ?thesis
  proof (cases "open_read w ?name (endswith ?name ''.gz'')")
    case (Inl e)
    with assms show ?thesis
      by (auto simp: open_next_def Let_def reopens_at_zero_def split: option.splits)
  next
    case (Inr h)
    then have op: "\<not> h_closed h"
      by (auto simp: open_read_def split: option.splits)
    obtain r2 s2 where g: "get_offset (?s1\<lparr>fh := Some h\<rparr>) w = (r2, s2)"
      by (cases "get_offset (?s1\<lparr>fh := Some h\<rparr>) w")
    from get_offset_fh [OF g] have f2: "fh s2 = Some h" by simp
    show ?thesis
    proof (cases r2)
      case (Inl e)
      with assms Inr g f2 op show ?thesis
        by (simp add: open_next_def Let_def)
    next
      case off: (Inr off)
      show ?thesis
      proof (cases "seek w h off")
        case (Inl e)
        with assms Inr g off f2 op show ?thesis
          by (simp add: open_next_def Let_def)
      next
        case sk: (Inr h')
        from seek_open [OF sk] op have "\<not> h_closed h'" by simp
        with assms Inr g off sk show ?thesis
          by (auto simp: open_next_def Let_def)
      qed
    qed
  qed
qed

lemma filehandle_reopens:
  "reopens_at_zero s \<Longrightarrow> filehandle s w = (r, s') \<Longrightarrow> reopens_at_zero s'"
  by (auto simp: filehandle_def split: option.splits if_splits dest: open_next_reopens)

lemma filehandle_readline_reopens:
  assumes "reopens_at_zero s" "filehandle_readline s w = (r, s')"
  shows "reopens_at_zero s'"
proof -
  obtain r1 s1 where f: "filehandle s w = (r1, s1)" by (cases "filehandle s w")
  note i1 = filehandle_reopens [OF assms(1) f]
  show ?thesis
  proof (cases r1)
    case (Inl e)
    with assms f i1 show ?thesis by (simp add: filehandle_readline_def)
  next
    case (Inr h)
    show ?thesis
    proof (cases "readline w h")
      case (Inl e)
      with assms f i1 Inr show ?thesis by (simp add: filehandle_readline_def)
    next
      case rl: (Inr p)
      obtain l h' where p: "p = (l, h')" by (cases p)
      from readline_result [of w h l h'] rl p have "\<not> h_closed h'" by simp
      with assms f Inr rl p show ?thesis
        by (auto simp: filehandle_readline_def)
    qed
  qed
qed

lemma reload_reopens: "reload s = (r, s') \<Longrightarrow> reopens_at_zero s \<Longrightarrow> reopens_at_zero s'"
  by (auto simp: reload_def reopens_at_zero_def split: option.splits)

lemma reload_reopens': "reload s = (Inr u, s') \<Longrightarrow> reopens_at_zero s'"
  by (auto simp: reload_def reopens_at_zero_def split: option.splits)

lemma check_rotate_truncate_reopens:
  assumes "reopens_at_zero s" "check_rotate_truncate s w = (r, s', w')"
  shows "reopens_at_zero s'"
proof -
  obtain r1 s1 where f: "filehandle s w = (r1, s1)" by (cases "filehandle s w")
  note i1 = filehandle_reopens [OF assms(1) f]
  show ?thesis
  proof (cases r1)
    case (Inl e)
    with assms f i1 show ?thesis by (simp add: check_rotate_truncate_def)
  next
    case (Inr h)
    from filehandle_result [of s w h s1] f Inr have h: "fh s1 = Some h" "\<not> h_closed h"
      by simp_all
    have ck: "check_rotate_truncate s w = check_rotate_truncate s1 w"
      using f Inr h by (simp add: check_rotate_truncate_def filehandle_open)
    from h have "s' = s1 \<or> s' = reloaded s1 h"
      by (cases rule: check_rotate_truncate_open_cases [where w = w])
        (use assms(2) ck in auto)
    with i1 show ?thesis by auto
  qed
qed


lemma update_offset_file_reopens:
  "reopens_at_zero s \<Longrightarrow> update_offset_file s w = (r, s', w') \<Longrightarrow> reopens_at_zero s'"
  by (auto simp: update_offset_file_def split: if_splits prod.splits sum.splits option.splits
      dest: filehandle_reopens)

lemma wait_for_update_reopens:
  "reopens_at_zero s \<Longrightarrow> wait_for_update s w sc = Some (r, s', w', sc') \<Longrightarrow> reopens_at_zero s'"
proof (induction sc arbitrary: s w)
  case Nil
  then show ?case by (auto split: if_splits)
next
  case (Cons sleep rest)
  show ?case
  proof (cases "(wait_timeout s < 0 \<or> time_waited s < wait_timeout s) \<and> \<not> wait_step s < 0")
    case False
    with Cons.prems show ?thesis by (auto split: if_splits)
  next
    case True
    obtain r1 s2 where rl: "filehandle_readline (s\<lparr>time_waited := time_waited s + wait_step s\<rparr>) (sleep w) = (r1, s2)"
      by (cases "filehandle_readline (s\<lparr>time_waited := time_waited s + wait_step s\<rparr>) (sleep w)")
    have i2: "reopens_at_zero s2"
      using Cons.prems(1) by (intro filehandle_readline_reopens [OF _ rl]) simp
    obtain r' s3 w3 where ck: "check_rotate_truncate s2 (sleep w) = (r', s3, w3)"
      by (cases "check_rotate_truncate s2 (sleep w)")
    note i3 = check_rotate_truncate_reopens [OF i2 ck]
    from True Cons.prems(2) rl ck i2 i3 Cons.IH [of s3 w3] show ?thesis
      by (auto simp: Let_def split: sum.splits if_splits)
  qed
qed

lemma get_next_line_reopens:
  assumes "reopens_at_zero s" "get_next_line s w sc = Some (r, s', w', sc')"
  shows "reopens_at_zero s'"
proof -
  obtain r1 s1 where rl: "filehandle_readline s w = (r1, s1)"
    by (cases "filehandle_readline s w")
  note i1 = filehandle_readline_reopens [OF assms(1) rl]
  obtain r' s2 w2 where ck: "check_rotate_truncate s1 w = (r', s2, w2)"
    by (cases "check_rotate_truncate s1 w")
  note i2 = check_rotate_truncate_reopens [OF i1 ck]
  from assms(2) rl ck i1 i2 wait_for_update_reopens [of s2 w2 sc r s' w' sc'] show ?thesis
    by (auto simp: get_next_line_def split: sum.splits if_splits)
qed

lemma return_line_reopens:
  "reopens_at_zero s \<Longrightarrow> return_line l s w sc = Some (r, s', w', sc') \<Longrightarrow> reopens_at_zero s'"
  by (auto simp: return_line_def split: if_splits prod.splits sum.splits
      dest: update_offset_file_reopens)

lemma update_and_stop_reopens:
  "reopens_at_zero s \<Longrightarrow> update_and_stop s w sc = Some (r, s', w', sc') \<Longrightarrow> reopens_at_zero s'"
  by (auto simp: update_and_stop_def split: prod.splits sum.splits
      dest: update_offset_file_reopens)

lemma next_rotated_reopens:
  assumes "reopens_at_zero s" "next_rotated s w sc = Some (r, s', w', sc')"
  shows "reopens_at_zero s'"
proof (cases "fh s")
  case None
  with assms show ?thesis by (simp add: next_rotated_def)
next
  case (Some h)
  show ?thesis
  proof (cases "h_gz h")
    case False
    with Some assms show ?thesis by (simp add: next_rotated_def)
  next
    case True
    define w1 where "w1 = emit DEBUG (''Finished processing '' @ h_name h @ '', moving to '' @
        (case rotated_logfiles s of [] \<Rightarrow> filename s | f # fs \<Rightarrow> if f \<noteq> [] then f else filename s)) w"
    define s2 where "s2 = (reloaded s h)\<lparr>catching_up := (rotated_logfiles (reloaded s h) \<noteq> [])\<rparr>"
    have i2: "reopens_at_zero s2" by (simp add: s2_def)
    from assms Some True
    have step: "(case get_next_line s2 w1 sc of
                   None \<Rightarrow> None
                 | Some (r', s3, w3, sc3) \<Rightarrow>
                     (case r' of
                        Inr line \<Rightarrow> return_line line s3 w3 sc3
                      | Inl e \<Rightarrow> if e = StopIteration then update_and_stop s3 w3 sc3
                                 else Some (Inl e, s3, w3, sc3))) = Some (r, s', w', sc')"
      by (simp add: next_rotated_def reload_open Let_def w1_def s2_def)
    then obtain r' s3 w3 sc3 where g: "get_next_line s2 w1 sc = Some (r', s3, w3, sc3)"
      by (cases "get_next_line s2 w1 sc") auto
    note i3 = get_next_line_reopens [OF i2 g]
    from step g i3 show ?thesis
      by (auto split: sum.splits if_splits dest: return_line_reopens update_and_stop_reopens)
  qed
qed

lemma next_line_reopens:
  assumes "reopens_at_zero s" "next_line s w sc = Some (r, s', w', sc')"
  shows "reopens_at_zero s'"
proof -
  from assms obtain r1 s1 w1 sc1 where g: "get_next_line s w sc = Some (r1, s1, w1, sc1)"
    by (cases "get_next_line s w sc") (auto simp: next_line_def)
  note i1 = get_next_line_reopens [OF assms(1) g]
  from assms(2) g i1 show ?thesis
    by (auto simp: next_line_def split: sum.splits if_splits
        dest: return_line_reopens update_and_stop_reopens next_rotated_reopens)
qed

lemma init_offset:
  assumes "init f p par c ws wt hn w = Inr s"
  shows "\<exists>off. offset s = Some off"
proof -
  from assms obtain s1 where ps: "parse_offset_file (new_object f p par c ws wt hn w) w = (Inr (), s1)"
    and s: "s = s1 \<or> (\<exists>files. s = s1\<lparr>rotated_logfiles := files, catching_up := (files \<noteq> [])\<rparr>)"
    by (rule init_cases)
  have "\<exists>off. offset s1 = Some off"
    using ps by (auto simp: parse_offset_file_def Let_def split: if_splits sum.splits)
  with s show ?thesis by auto
qed

lemma filehandle_new:
  assumes "is_closed s" "offset s = Some off" "filehandle s w = (Inr h, s')"
  shows "h_name h = (case rotated_logfiles s of [] \<Rightarrow> filename s | f # fs \<Rightarrow> f)
    \<and> h_gz h = endswith (h_name h) ''.gz'' \<and> \<not> h_closed h \<and> 0 \<le> off
    \<and> (if h_gz h \<and> 0 < off
        then \<exists>data. stream w h = Some data \<and> h_pos h = min (nat off) (length data)
        else h_pos h = nat off)"
proof -
  let ?name = "case rotated_logfiles s of [] \<Rightarrow> filename s | f # fs \<Rightarrow> f"
  let ?s1 = "s\<lparr>rotated_logfiles := (case rotated_logfiles s of [] \<Rightarrow> [] | f # fs \<Rightarrow> fs)\<rparr>"
  from assms have on: "open_next s w = (Inr h, s')"
    by (auto simp: filehandle_def is_closed_def split: option.splits if_splits)
  then obtain h0 where o: "open_read w ?name (endswith ?name ''.gz'') = Inr h0"
    by (cases "open_read w ?name (endswith ?name ''.gz'')") (auto simp: open_next_def Let_def)
  have go: "get_offset (?s1\<lparr>fh := Some h0\<rparr>) w = (Inr off, ?s1\<lparr>fh := Some h0\<rparr>)"
    using assms(2) by (simp add: get_offset_Some)
  from on o go have sk: "seek w h0 off = Inr h"
    by (auto simp: open_next_def Let_def split: sum.splits)
  from o have h0: "h_name h0 = ?name" "h_gz h0 = endswith ?name ''.gz''" "h_pos h0 = 0"
    "\<not> h_closed h0"
    by (auto simp: open_read_def split: option.splits)
  from sk h0 show ?thesis
    by (auto simp: seek_def stream_def split: if_splits option.splits)
qed


text \<open>
  C3. \<open>_filehandle\<close> seeks every file it opens to the current offset, the head of
  the rotated files as well as the live file. A new object has no file object
  and the offset it loaded, so the first file it opens, archive or live, is
  positioned at the persisted offset (a gzip file at most at the end of its
  stream). From then on a closed file object goes with offset 0, and this
  survives every pull; so each later file is opened at position 0.
\<close>

theorem seek_on_open:
  "(init f p par c ws wt hn w0 = Inr s0
      \<longrightarrow> fh s0 = None \<and> (\<exists>off0. offset s0 = Some off0) \<and> reopens_at_zero s0)
   \<and> (reopens_at_zero s \<and> next_line s w sc = Some (r, s', w', sc') \<longrightarrow> reopens_at_zero s')
   \<and> (is_closed s \<and> offset s = Some off \<and> filehandle s w = (Inr h, s1)
      \<longrightarrow> h_name h = (case rotated_logfiles s of [] \<Rightarrow> filename s | f # fs \<Rightarrow> f)
          \<and> h_gz h = endswith (h_name h) ''.gz''
          \<and> (if h_gz h \<and> 0 < off
              then \<exists>data. stream w h = Some data \<and> h_pos h = min (nat off) (length data)
              else h_pos h = nat off))
   \<and> (reopens_at_zero s \<and> fh s \<noteq> None \<and> is_closed s \<and> filehandle s w = (Inr h, s1)
      \<longrightarrow> h_pos h = 0)"
proof -
  have 1: "fh s0 = None \<and> (\<exists>off0. offset s0 = Some off0) \<and> reopens_at_zero s0"
    if i: "init f p par c ws wt hn w0 = Inr s0"
    using init_time_waited [OF i] init_offset [OF i] by (simp add: reopens_at_zero_def)
  have 2: "reopens_at_zero s'"
    if "reopens_at_zero s \<and> next_line s w sc = Some (r, s', w', sc')"
    using that by (auto dest: next_line_reopens)
  have 3: "h_name h = (case rotated_logfiles s of [] \<Rightarrow> filename s | f # fs \<Rightarrow> f)
          \<and> h_gz h = endswith (h_name h) ''.gz''
          \<and> (if h_gz h \<and> 0 < off
              then \<exists>data. stream w h = Some data \<and> h_pos h = min (nat off) (length data)
              else h_pos h = nat off)"
    if "is_closed s \<and> offset s = Some off \<and> filehandle s w = (Inr h, s1)"
    using that filehandle_new [of s off w h s1] by simp
  have 4: "h_pos h = 0"
    if a: "reopens_at_zero s \<and> fh s \<noteq> None \<and> is_closed s \<and> filehandle s w = (Inr h, s1)"
  proof -
    from a have "offset s = Some 0"
      by (auto simp: reopens_at_zero_def is_closed_def split: option.splits if_splits)
    with a filehandle_new [of s 0 w h s1] show ?thesis by simp
  qed
  from 1 2 3 4 show ?thesis by blast
qed

text \<open>A session that starts with offset 2 and one pending archive: the archive is
  opened at position 2 and its first line is skipped.\<close>

theorem seek_on_open_counterexample:
  "init ''app.log'' None False True (1 / 2) 20 None archive_world = Inr catchup_session
   \<and> fh catchup_session = None \<and> offset catchup_session = Some 2
   \<and> rotated_logfiles catchup_session = [''app.log_web1_2024011511.gz'']
   \<and> inflated (inodes archive_world 4) = Some ''k\<newline>l\<newline>m\<newline>''
   \<and> filehandle catchup_session archive_world =
       (Inr \<lparr>h_name = ''app.log_web1_2024011511.gz'', h_ino = 4, h_gz = True, h_pos = 2,
             h_closed = False\<rparr>,
        catchup_session\<lparr>rotated_logfiles := [],
                        fh := Some \<lparr>h_name = ''app.log_web1_2024011511.gz'', h_ino = 4,
                                     h_gz = True, h_pos = 2, h_closed = False\<rparr>\<rparr>)
   \<and> next_line catchup_session archive_world [] =
       Some (Inr ''l\<newline>'',
             catchup_session\<lparr>rotated_logfiles := [],
                        fh := Some \<lparr>h_name = ''app.log_web1_2024011511.gz'', h_ino = 4,
                                     h_gz = True, h_pos = 4, h_closed = False\<rparr>\<rparr>,
             archive_world, [])"
proof -
  have "fh catchup_session = None" "offset catchup_session = Some 2"
    "rotated_logfiles catchup_session = [''app.log_web1_2024011511.gz'']"
    by (simp_all add: catchup_session_def fresh_session_def)
  moreover have "inflated (inodes archive_world 4) = Some ''k\<newline>l\<newline>m\<newline>''"
    by (simp add: archive_world_def gz_archive_def)
  ultimately show ?thesis
    using init_sample filehandle_sample next_line_sample by simp
qed

text \<open>The same session, and the reopening of the live file after a reload.\<close>

theorem seek_on_open_witness:
  "fh catchup_session = None \<and> reopens_at_zero catchup_session
   \<and> reopens_at_zero
       (catchup_session\<lparr>rotated_logfiles := [],
                        fh := Some \<lparr>h_name = ''app.log_web1_2024011511.gz'', h_ino = 4,
                                     h_gz = True, h_pos = 4, h_closed = False\<rparr>\<rparr>)
   \<and> h_pos \<lparr>h_name = ''app.log_web1_2024011511.gz'', h_ino = 4, h_gz = True, h_pos = 2,
             h_closed = False\<rparr> = min (nat 2) (length ''k\<newline>l\<newline>m\<newline>'')
   \<and> h_pos (live_handle tailing 1) = 0"
proof -
  note T = seek_on_open
  let ?h = "\<lparr>h_name = ''app.log_web1_2024011511.gz'', h_ino = 4, h_gz = True, h_pos = 2,
             h_closed = False\<rparr>"
  let ?s1 = "catchup_session\<lparr>rotated_logfiles := [], fh := Some ?h\<rparr>"
  let ?s2 = "catchup_session\<lparr>rotated_logfiles := [], fh := Some (?h\<lparr>h_pos := 4\<rparr>)\<rparr>"
  let ?c = "tailing\<lparr>fh := Some (at_end\<lparr>h_closed := True\<rparr>)\<rparr>"
  from T [where f = "''app.log''" and p = None and par = False and c = True and ws = "1 / 2"
      and wt = 20 and hn = None and ?w0.0 = archive_world and ?s0.0 = catchup_session]
    init_sample
  have 1: "fh catchup_session = None" "reopens_at_zero catchup_session"
    by simp_all
  from T [where s = catchup_session and w = archive_world and sc = "[]" and r = "Inr ''l\<newline>''"
      and s' = ?s2 and w' = archive_world and sc' = "[]"] 1 next_line_sample
  have 2: "reopens_at_zero ?s2"
    by simp
  have c3: "is_closed catchup_session" "offset catchup_session = Some 2"
    by (simp_all add: is_closed_def catchup_session_def fresh_session_def)
  have st: "stream archive_world ?h = Some ''k\<newline>l\<newline>m\<newline>''"
    by (simp add: stream_def archive_world_def gz_archive_def)
  from T [where s = catchup_session and off = 2 and w = archive_world and h = ?h and ?s1.0 = ?s1]
    c3 filehandle_sample st
  have 3: "h_pos ?h = min (nat 2) (length ''k\<newline>l\<newline>m\<newline>'')"
    by simp
  have f4: "filehandle ?c sample_world = (Inr (live_handle tailing 1),
      tailing\<lparr>fh := Some (live_handle tailing 1)\<rparr>)"
    by (simp add: eval_defs sample_defs)
  have c4: "reopens_at_zero ?c" "fh ?c \<noteq> None" "is_closed ?c"
    by (simp_all add: reopens_at_zero_def is_closed_def sample_defs)
  from T [where s = ?c and w = sample_world and h = "live_handle tailing 1"
      and ?s1.0 = "tailing\<lparr>fh := Some (live_handle tailing 1)\<rparr>"]
    c4 f4
  have 4: "h_pos (live_handle tailing 1) = 0"
    by simp
  from 1 2 3 4 show ?thesis by simp
qed

subsection \<open>Loading the cursor\<close>




lemma int_item_Inl:
  "int_item d i = Inl e \<longleftrightarrow>
     (\<not> i < length d \<and> e = IndexError) \<or> (i < length d \<and> py_int (d ! i) = None \<and> e = ValueError)"
  by (auto simp: int_item_def item_def split: option.splits)









subsection \<open>Persisting the cursor without an open file\<close>

text \<open>
  C7. When no file object is open (none was ever opened, or the current one has
  been closed), \<open>_update_offset_file\<close> returns at once: the object and the whole
  world, the offset file included, are what they were, and nothing is raised.
\<close>

theorem update_offset_file_closed_noop:
  assumes "is_closed s"
  shows "update_offset_file s w = (Inr (), s, w)
         \<and> read_file (snd (snd (update_offset_file s w))) (offset_file s) = read_file w (offset_file s)"
  using assms by (simp add: update_offset_file_def)

theorem update_offset_file_closed_noop_witness:
  "is_closed fresh_session
   \<and> update_offset_file fresh_session sample_world = (Inr (), fresh_session, sample_world)
   \<and> is_closed (fresh_session\<lparr>fh := Some \<lparr>h_name = ''app.log'', h_ino = 1, h_gz = False,
                                             h_pos = 4, h_closed = True\<rparr>\<rparr>)
   \<and> fst (snd (update_offset_file
        (fresh_session\<lparr>fh := Some \<lparr>h_name = ''app.log'', h_ino = 1, h_gz = False,
                                    h_pos = 4, h_closed = True\<rparr>\<rparr>) sample_world))
       = fresh_session\<lparr>fh := Some \<lparr>h_name = ''app.log'', h_ino = 1, h_gz = False,
                                    h_pos = 4, h_closed = True\<rparr>\<rparr>"
proof -
  have c1: "is_closed fresh_session"
    by (simp add: is_closed_def fresh_session_def)
  have c2: "is_closed (fresh_session\<lparr>fh := Some \<lparr>h_name = ''app.log'', h_ino = 1, h_gz = False,
                                             h_pos = 4, h_closed = True\<rparr>\<rparr>)"
    by (simp add: is_closed_def)
  show ?thesis
    using c1 c2 update_offset_file_closed_noop [OF c1, of sample_world]
      update_offset_file_closed_noop [OF c2, of sample_world]
    by simp
qed

subsection \<open>Waiting for new data\<close>





end
